theory Spec2Isabelle
  imports Complex_Main
begin

section \<open>The data-cleaning cells of the notebook sierra_leone_eda.ipynb\<close>

text \<open>
  The notebook loads a CSV into a pandas DataFrame \<open>df\<close>, prints a missing-value report
  (cell 3) and then, in cell 5, flags outlier rows by z-score, fills the missing cells of
  seven columns with the column median, drops the column \<open>Comments\<close>, clips the seven
  columns at zero and writes the frame back to a CSV file.

  A numeric cell is a real number (every double is one) or \<open>None\<close> for NaN, pandas'
  missing marker; infinities are outside the model. The median and the percentages are
  taken exactly, where the code rounds the last bit of the value. The z-scores are not
  computed in the model at all: whether a score exceeds 3 can depend on that rounding, so
  the scoring function is a parameter (see the outlier detection below). A column read by
  \<open>read_csv\<close> is either numeric (float64 or int64) or of dtype object (strings with NaN
  for empty cells).
\<close>

subsection \<open>Data model\<close>

datatype error = KeyError string | TypeError string

datatype column = NumCol "real option list" | ObjCol "string option list"

text \<open>A DataFrame: its index length (\<open>len(df)\<close>) and its columns in file order.\<close>

record dataframe =
  nrows :: nat
  cols :: "(string \<times> column) list"

fun col_len :: "column \<Rightarrow> nat" where
  "col_len (NumCol xs) = length xs"
| "col_len (ObjCol ss) = length ss"

definition col_names :: "dataframe \<Rightarrow> string list" where
  "col_names d = map fst (cols d)"

text \<open>
  What \<open>read_csv\<close> guarantees: column labels are unique (duplicates are renamed on
  load) and every column has one cell per row.
\<close>

definition wf_df :: "dataframe \<Rightarrow> bool" where
  "wf_df d \<longleftrightarrow> distinct (col_names d) \<and> list_all (\<lambda>(n, c). col_len c = nrows d) (cols d)"

text \<open>\<open>df[col]\<close>: the column labelled \<open>col\<close>, or KeyError.\<close>

definition getitem :: "dataframe \<Rightarrow> string \<Rightarrow> error + column" where
  "getitem d k = (case map_of (cols d) k of None \<Rightarrow> Inl (KeyError k) | Some c \<Rightarrow> Inr c)"

text \<open>
  \<open>df[[k1, ..., kn]]\<close>: the listed columns in the listed order; KeyError when a label
  is not a column (the model reports the first such label).
\<close>

fun getitem_cols :: "dataframe \<Rightarrow> string list \<Rightarrow> error + (string \<times> column) list" where
  "getitem_cols d [] = Inr []"
| "getitem_cols d (k # ks) =
     (case map_of (cols d) k of
        None \<Rightarrow> Inl (KeyError k)
      | Some c \<Rightarrow> (case getitem_cols d ks of Inl e \<Rightarrow> Inl e | Inr cs \<Rightarrow> Inr ((k, c) # cs)))"

text \<open>
  \<open>df[col] = series\<close>: replaces the column in place when the label exists, appends
  it otherwise.
\<close>

definition setitem :: "dataframe \<Rightarrow> string \<Rightarrow> column \<Rightarrow> dataframe" where
  "setitem d k c =
     (if k \<in> set (col_names d)
      then d\<lparr>cols := map (\<lambda>(n, c0). if n = k then (n, c) else (n, c0)) (cols d)\<rparr>
      else d\<lparr>cols := cols d @ [(k, c)]\<rparr>)"

subsection \<open>Cell 3: the missing-value report\<close>

text \<open>
  \<^verbatim>\<open>missing_values = df.isna().sum()\<close>
  \<^verbatim>\<open>missing_percentage = (df.isna().sum() / len(df)) * 100\<close>
  \<^verbatim>\<open>missing_report = pd.DataFrame({'Missing Values': missing_values, 'Percentage': missing_percentage})\<close>
  \<^verbatim>\<open>print(..., missing_report[missing_report['Percentage'] > 5])\<close>
\<close>

fun isna :: "column \<Rightarrow> bool list" where
  "isna (NumCol xs) = map (\<lambda>v. v = None) xs"
| "isna (ObjCol ss) = map (\<lambda>v. v = None) ss"

definition isna_sum :: "column \<Rightarrow> nat" where
  "isna_sum c = length (filter (\<lambda>b. b) (isna c))"

definition missing_values :: "dataframe \<Rightarrow> (string \<times> nat) list" where
  "missing_values d = map (\<lambda>(n, c). (n, isna_sum c)) (cols d)"

text \<open>Division by \<open>len(df) = 0\<close> gives NaN (every count is 0 then).\<close>

definition missing_percentage :: "dataframe \<Rightarrow> (string \<times> real option) list" where
  "missing_percentage d =
     map (\<lambda>(n, c). (n, if nrows d = 0 then None
                        else Some (real (isna_sum c) / real (nrows d) * 100))) (cols d)"

record report_row =
  label :: string
  Missing_Values :: nat
  Percentage :: "real option"

definition missing_report :: "dataframe \<Rightarrow> report_row list" where
  "missing_report d =
     map (\<lambda>((n, v), (n', p)). \<lparr>label = n, Missing_Values = v, Percentage = p\<rparr>)
       (zip (missing_values d) (missing_percentage d))"

text \<open>A comparison with NaN is False.\<close>

fun gt :: "real option \<Rightarrow> real \<Rightarrow> bool" where
  "gt None r = False"
| "gt (Some x) r = (x > r)"

definition printed_missing_report :: "dataframe \<Rightarrow> report_row list" where
  "printed_missing_report d = filter (\<lambda>r. gt (Percentage r) 5) (missing_report d)"

subsection \<open>Cell 5: outlier detection\<close>

definition key_columns :: "string list" where
  "key_columns = [''GHI'', ''DNI'', ''DHI'', ''ModA'', ''ModB'', ''WS'', ''WSgust'']"

text \<open>The non-missing cells of a column, in order (what \<open>nan_policy='omit'\<close> and
  \<open>skipna\<close> leave).\<close>

fun nan_omit :: "real option list \<Rightarrow> real list" where
  "nan_omit [] = []"
| "nan_omit (None # xs) = nan_omit xs"
| "nan_omit (Some x # xs) = x # nan_omit xs"

text \<open>
  \<open>scipy.stats.zscore\<close> is library code that computes in IEEE double arithmetic; the
  notebook only names it. What it returns on a column is fixed by the library's rounding
  and order of summation, not by the formula (a - mean) / std over the reals: on nine
  cells 0.0 and one cell 7.0 the formula gives the last cell the score 3, the library gives
  it 3.0000000000000004. The scoring function is therefore a parameter \<open>zscore\<close> of the
  detector and of the run: a function from the cells of a column to its scores, NaN
  included.
\<close>

type_synonym scorer = "real option list \<Rightarrow> real option list"

text \<open>\<open>frame.apply(zscore, nan_policy='omit')\<close>, column by column; strings cannot be scored.\<close>

fun apply_zscore :: "scorer \<Rightarrow> (string \<times> column) list \<Rightarrow> error + (string \<times> real option list) list" where
  "apply_zscore zscore [] = Inr []"
| "apply_zscore zscore ((k, NumCol xs) # cs) =
     (case apply_zscore zscore cs of Inl e \<Rightarrow> Inl e | Inr zs \<Rightarrow> Inr ((k, zscore xs) # zs))"
| "apply_zscore zscore ((k, ObjCol ss) # cs) = Inl (TypeError k)"

text \<open>\<open>z_scores.abs() > 3\<close>, for one column.\<close>

definition abs_gt :: "real \<Rightarrow> real option list \<Rightarrow> bool list" where
  "abs_gt r zs = map (\<lambda>z. gt (map_option abs z) r) zs"

text \<open>\<open>.any(axis=1)\<close>: one flag per row of the index.\<close>

definition any_axis1 :: "nat \<Rightarrow> bool list list \<Rightarrow> bool list" where
  "any_axis1 n ms = map (\<lambda>i. list_ex (\<lambda>m. i < length m \<and> m ! i) ms) [0..<n]"

definition detect_outliers :: "scorer \<Rightarrow> dataframe \<Rightarrow> error + bool list" where
  "detect_outliers zscore d =
     (case getitem_cols d key_columns of
        Inl e \<Rightarrow> Inl e
      | Inr sel \<Rightarrow>
          (case apply_zscore zscore sel of
             Inl e \<Rightarrow> Inl e
           | Inr z_scores \<Rightarrow> Inr (any_axis1 (nrows d) (map (\<lambda>(k, zs). abs_gt 3 zs) z_scores))))"

text \<open>Boolean-mask row selection \<open>frame[mask]\<close> on one column.\<close>

fun mask_list :: "bool list \<Rightarrow> 'a list \<Rightarrow> 'a list" where
  "mask_list (b # bs) (x # xs) = (if b then x # mask_list bs xs else mask_list bs xs)"
| "mask_list _ _ = []"

fun mask_col :: "bool list \<Rightarrow> column \<Rightarrow> column" where
  "mask_col m (NumCol xs) = NumCol (mask_list m xs)"
| "mask_col m (ObjCol ss) = ObjCol (mask_list m ss)"

text \<open>\<open>df[outliers]\<close>: the rows of the frame that the mask selects.\<close>

definition flagged_rows :: "bool list \<Rightarrow> dataframe \<Rightarrow> dataframe" where
  "flagged_rows m d =
     \<lparr>nrows = length (filter (\<lambda>b. b) m), cols = map (\<lambda>(n, c). (n, mask_col m c)) (cols d)\<rparr>"

text \<open>
  What the detector prints: \<open>outliers.sum()\<close> and \<open>df[outliers][key_columns]\<close>. The
  run goes on with \<open>df\<close>.
\<close>

record outlier_report =
  outliers :: "bool list"
  n_outliers :: nat
  outlier_rows :: "(string \<times> column) list"

definition outlier_detector :: "scorer \<Rightarrow> dataframe \<Rightarrow> error + (outlier_report \<times> dataframe)" where
  "outlier_detector zscore d =
     (case detect_outliers zscore d of
        Inl e \<Rightarrow> Inl e
      | Inr m \<Rightarrow>
          (case getitem_cols (flagged_rows m d) key_columns of
             Inl e \<Rightarrow> Inl e
           | Inr sel \<Rightarrow>
               Inr (\<lparr>outliers = m, n_outliers = length (filter (\<lambda>b. b) m), outlier_rows = sel\<rparr>, d)))"

subsection \<open>Cell 5: imputation\<close>

text \<open>
  \<open>Series.median()\<close> skips NaN: the middle of the sorted non-missing values, the mean of
  the two middle ones when their number is even, NaN when there is none.
\<close>

definition median :: "real list \<Rightarrow> real option" where
  "median ys =
     (let s = sort ys; n = length s
      in if n = 0 then None
         else if odd n then Some (s ! (n div 2))
         else Some ((s ! (n div 2 - 1) + s ! (n div 2)) / 2))"

text \<open>\<open>Series.fillna(v)\<close>; filling with NaN changes nothing.\<close>

definition fillna :: "real option list \<Rightarrow> real option \<Rightarrow> real option list" where
  "fillna xs v = map (\<lambda>x. case x of None \<Rightarrow> v | Some y \<Rightarrow> Some y) xs"

text \<open>\<open>df[col] = df[col].fillna(df[col].median())\<close>; the median of strings is a TypeError.\<close>

definition impute_col :: "dataframe \<Rightarrow> string \<Rightarrow> error + dataframe" where
  "impute_col d k =
     (case getitem d k of
        Inl e \<Rightarrow> Inl e
      | Inr (ObjCol ss) \<Rightarrow> Inl (TypeError k)
      | Inr (NumCol xs) \<Rightarrow> Inr (setitem d k (NumCol (fillna xs (median (nan_omit xs))))))"

text \<open>\<open>for col in key_columns: ...\<close>\<close>

fun impute_loop :: "dataframe \<Rightarrow> string list \<Rightarrow> error + dataframe" where
  "impute_loop d [] = Inr d"
| "impute_loop d (k # ks) =
     (case impute_col d k of Inl e \<Rightarrow> Inl e | Inr d' \<Rightarrow> impute_loop d' ks)"

definition imputer :: "dataframe \<Rightarrow> error + dataframe" where
  "imputer d = impute_loop d key_columns"

subsection \<open>Cell 5: dropping Comments and clipping\<close>

text \<open>\<open>df.drop(columns=[...], errors='ignore')\<close>: labels that are no column are skipped.\<close>

definition drop_columns :: "dataframe \<Rightarrow> string list \<Rightarrow> dataframe" where
  "drop_columns d ks = d\<lparr>cols := filter (\<lambda>(n, c). n \<notin> set ks) (cols d)\<rparr>"

text \<open>\<open>clip(lower=lo)\<close> on one column: NaN stays NaN; strings do not compare with a number.\<close>

definition clip_lower :: "real \<Rightarrow> real option list \<Rightarrow> real option list" where
  "clip_lower lo xs = map (\<lambda>v. case v of None \<Rightarrow> None | Some x \<Rightarrow> Some (if x < lo then lo else x)) xs"

fun clip_cols :: "real \<Rightarrow> (string \<times> column) list \<Rightarrow> error + (string \<times> column) list" where
  "clip_cols lo [] = Inr []"
| "clip_cols lo ((k, NumCol xs) # cs) =
     (case clip_cols lo cs of Inl e \<Rightarrow> Inl e | Inr cs' \<Rightarrow> Inr ((k, NumCol (clip_lower lo xs)) # cs'))"
| "clip_cols lo ((k, ObjCol ss) # cs) = Inl (TypeError k)"

text \<open>\<open>df[[k1, ..., kn]] = frame\<close>: one column assignment per label.\<close>

fun setitem_cols :: "dataframe \<Rightarrow> (string \<times> column) list \<Rightarrow> dataframe" where
  "setitem_cols d [] = d"
| "setitem_cols d ((k, c) # cs) = setitem_cols (setitem d k c) cs"

text \<open>\<open>df[key_columns] = df[key_columns].clip(lower=0)\<close>\<close>

definition clip_key_columns :: "dataframe \<Rightarrow> error + dataframe" where
  "clip_key_columns d =
     (case getitem_cols d key_columns of
        Inl e \<Rightarrow> Inl e
      | Inr sel \<Rightarrow> (case clip_cols 0 sel of Inl e \<Rightarrow> Inl e | Inr sel' \<Rightarrow> Inr (setitem_cols d sel')))"

definition normalizer :: "dataframe \<Rightarrow> error + dataframe" where
  "normalizer d = clip_key_columns (drop_columns d [''Comments''])"

subsection \<open>Cell 5: export, and the cells in sequence\<close>

text \<open>
  \<open>df.to_csv(path, index=False)\<close>: a header line with the column labels and one line per
  row of the index, the cells in column order; NaN is written as the empty field.
\<close>

datatype field = Number real | Text string | Empty

fun cell_at :: "column \<Rightarrow> nat \<Rightarrow> field" where
  "cell_at (NumCol xs) i =
     (if i < length xs then (case xs ! i of None \<Rightarrow> Empty | Some x \<Rightarrow> Number x) else Empty)"
| "cell_at (ObjCol ss) i =
     (if i < length ss then (case ss ! i of None \<Rightarrow> Empty | Some s \<Rightarrow> Text s) else Empty)"

record csv_file =
  header_line :: "string list"
  data_lines :: "field list list"

definition to_csv :: "dataframe \<Rightarrow> csv_file" where
  "to_csv d =
     \<lparr>header_line = col_names d,
      data_lines = map (\<lambda>i. map (\<lambda>(n, c). cell_at c i) (cols d)) [0..<nrows d]\<rparr>"

record run_result =
  profile :: "report_row list"
  printed_profile :: "report_row list"
  outlier_rep :: outlier_report
  cleaned :: dataframe
  exported :: csv_file

text \<open>Cells 3 and 5 in order; an exception in one statement ends the run.\<close>

definition cleaning_pipeline :: "scorer \<Rightarrow> dataframe \<Rightarrow> error + run_result" where
  "cleaning_pipeline zscore d =
     (let rep = missing_report d; shown = printed_missing_report d
      in case outlier_detector zscore d of
           Inl e \<Rightarrow> Inl e
         | Inr (orep, d1) \<Rightarrow>
             (case imputer d1 of
                Inl e \<Rightarrow> Inl e
              | Inr d2 \<Rightarrow>
                  (case normalizer d2 of
                     Inl e \<Rightarrow> Inl e
                   | Inr d3 \<Rightarrow>
                       Inr \<lparr>profile = rep, printed_profile = shown, outlier_rep = orep,
                            cleaned = d3, exported = to_csv d3\<rparr>)))"

subsection \<open>Cell 5 on the notebook's objects: the detector's statements\<close>

text \<open>
  In the notebook \<open>df\<close> is a global name bound to an object. A statement can change that
  object in place (\<open>df[col] = ...\<close>), bind the name to another object
  (\<open>df = df.drop(...)\<close>), or do neither. To tell these apart the four statements of the
  detector are also given as steps on a notebook state: the objects in the order of their
  creation (the address of an object is its position), the global names with the address
  each is bound to, and what has been printed.

  \<^verbatim>\<open>z_scores = df[key_columns].apply(zscore, nan_policy='omit')\<close>
  \<^verbatim>\<open>outliers = (z_scores.abs() > 3).any(axis=1)\<close>
  \<^verbatim>\<open>print(f"Number of rows with outliers: {outliers.sum()}")\<close>
  \<^verbatim>\<open>print("Outliers:\n", df[outliers][key_columns])\<close>

  Every pandas call in them returns a new object and leaves its operands as they are:
  \<open>df[[...]]\<close> and \<open>df[mask]\<close> copy the selected data, and \<open>apply\<close>, \<open>abs\<close>,
  the comparison and \<open>any\<close> build their results. The assignments bind \<open>z_scores\<close> and
  \<open>outliers\<close>. \<open>impute_in_place\<close> is one statement of the imputation loop on the same
  state, \<^verbatim>\<open>df[col] = df[col].fillna(df[col].median())\<close>, which does change the object.
\<close>

text \<open>
  The objects the four statements meet: a DataFrame, the frames of scores and of
  truth values that \<open>apply\<close>, \<open>abs\<close> and the comparison return (with their row count),
  and a Series of truth values.
\<close>

datatype obj =
    Frame dataframe
  | ScoreFrame nat "(string \<times> real option list) list"
  | BoolFrame nat "(string \<times> bool list) list"
  | BoolSeries "bool list"

datatype printed = Count nat | Table "(string \<times> column) list"

datatype nb_error = NameError string | Raised error

record notebook =
  objects :: "obj list"
  globals :: "string \<rightharpoonup> nat"
  printed_out :: "printed list"

text \<open>
  Creating an object puts it behind the others, so no address that is in use changes its
  object; \<open>load\<close> is the read of a global name, NameError when it is not bound.
\<close>

definition new_object :: "obj \<Rightarrow> notebook \<Rightarrow> notebook" where
  "new_object x s = s\<lparr>objects := objects s @ [x]\<rparr>"

definition last_object :: "notebook \<Rightarrow> nat" where
  "last_object s = length (objects s) - 1"

definition bind_name :: "string \<Rightarrow> nat \<Rightarrow> notebook \<Rightarrow> notebook" where
  "bind_name v a s = s\<lparr>globals := (globals s)(v \<mapsto> a)\<rparr>"

definition load :: "string \<Rightarrow> notebook \<Rightarrow> nb_error + obj" where
  "load v s =
     (case globals s v of
        None \<Rightarrow> Inl (NameError v)
      | Some a \<Rightarrow> if a < length (objects s) then Inr (objects s ! a) else Inl (NameError v))"

definition load_frame :: "string \<Rightarrow> notebook \<Rightarrow> nb_error + dataframe" where
  "load_frame v s =
     (case load v s of
        Inl e \<Rightarrow> Inl e
      | Inr (Frame d) \<Rightarrow> Inr d
      | Inr _ \<Rightarrow> Inl (Raised (TypeError v)))"

text \<open>\<^verbatim>\<open>z_scores = df[key_columns].apply(zscore, nan_policy='omit')\<close>\<close>

definition assign_z_scores :: "scorer \<Rightarrow> notebook \<Rightarrow> nb_error + notebook" where
  "assign_z_scores zscore s =
     (case load_frame ''df'' s of
        Inl e \<Rightarrow> Inl e
      | Inr d \<Rightarrow>
          (case getitem_cols d key_columns of
             Inl e \<Rightarrow> Inl (Raised e)
           | Inr sel \<Rightarrow>
               (case apply_zscore zscore sel of
                  Inl e \<Rightarrow> Inl (Raised e)
                | Inr zs \<Rightarrow>
                    (let s1 = new_object (Frame \<lparr>nrows = nrows d, cols = sel\<rparr>) s;
                         s2 = new_object (ScoreFrame (nrows d) zs) s1
                     in Inr (bind_name ''z_scores'' (last_object s2) s2)))))"

text \<open>\<^verbatim>\<open>outliers = (z_scores.abs() > 3).any(axis=1)\<close>\<close>

definition abs_scores :: "(string \<times> real option list) list \<Rightarrow> (string \<times> real option list) list" where
  "abs_scores zs = map (\<lambda>(k, z). (k, map (map_option abs) z)) zs"

definition above :: "real \<Rightarrow> (string \<times> real option list) list \<Rightarrow> (string \<times> bool list) list" where
  "above r zs = map (\<lambda>(k, z). (k, map (\<lambda>v. gt v r) z)) zs"

definition assign_outliers :: "notebook \<Rightarrow> nb_error + notebook" where
  "assign_outliers s =
     (case load ''z_scores'' s of
        Inl e \<Rightarrow> Inl e
      | Inr (ScoreFrame n zs) \<Rightarrow>
          (let s1 = new_object (ScoreFrame n (abs_scores zs)) s;
               s2 = new_object (BoolFrame n (above 3 (abs_scores zs))) s1;
               s3 = new_object (BoolSeries (any_axis1 n (map snd (above 3 (abs_scores zs))))) s2
           in Inr (bind_name ''outliers'' (last_object s3) s3))
      | Inr _ \<Rightarrow> Inl (Raised (TypeError ''z_scores'')))"

text \<open>\<^verbatim>\<open>print(f"Number of rows with outliers: {outliers.sum()}")\<close>\<close>

definition print_count :: "notebook \<Rightarrow> nb_error + notebook" where
  "print_count s =
     (case load ''outliers'' s of
        Inl e \<Rightarrow> Inl e
      | Inr (BoolSeries m) \<Rightarrow>
          Inr (s\<lparr>printed_out := printed_out s @ [Count (length (filter (\<lambda>b. b) m))]\<rparr>)
      | Inr _ \<Rightarrow> Inl (Raised (TypeError ''outliers'')))"

text \<open>\<^verbatim>\<open>print("Outliers:\n", df[outliers][key_columns])\<close>\<close>

definition print_rows :: "notebook \<Rightarrow> nb_error + notebook" where
  "print_rows s =
     (case load_frame ''df'' s of
        Inl e \<Rightarrow> Inl e
      | Inr d \<Rightarrow>
          (case load ''outliers'' s of
             Inl e \<Rightarrow> Inl e
           | Inr (BoolSeries m) \<Rightarrow>
               (let rows = flagged_rows m d;
                    s1 = new_object (Frame rows) s
                in case getitem_cols rows key_columns of
                     Inl e \<Rightarrow> Inl (Raised e)
                   | Inr sel \<Rightarrow>
                       (let s2 = new_object (Frame \<lparr>nrows = nrows rows, cols = sel\<rparr>) s1
                        in Inr (s2\<lparr>printed_out := printed_out s2 @ [Table sel]\<rparr>)))
           | Inr _ \<Rightarrow> Inl (Raised (TypeError ''outliers''))))"

text \<open>The four statements in order.\<close>

definition run_detector :: "scorer \<Rightarrow> notebook \<Rightarrow> nb_error + notebook" where
  "run_detector zscore s =
     (case assign_z_scores zscore s of
        Inl e \<Rightarrow> Inl e
      | Inr s1 \<Rightarrow>
          (case assign_outliers s1 of
             Inl e \<Rightarrow> Inl e
           | Inr s2 \<Rightarrow>
               (case print_count s2 of
                  Inl e \<Rightarrow> Inl e
                | Inr s3 \<Rightarrow> print_rows s3)))"

text \<open>
  \<^verbatim>\<open>df[col] = df[col].fillna(df[col].median())\<close>: the assignment stores the filled column
  in the object that \<open>df\<close> is bound to.
\<close>

definition impute_in_place :: "string \<Rightarrow> notebook \<Rightarrow> nb_error + notebook" where
  "impute_in_place col s =
     (case globals s ''df'' of
        None \<Rightarrow> Inl (NameError ''df'')
      | Some a \<Rightarrow>
          (case load_frame ''df'' s of
             Inl e \<Rightarrow> Inl e
           | Inr d \<Rightarrow>
               (case impute_col d col of
                  Inl e \<Rightarrow> Inl (Raised e)
                | Inr d' \<Rightarrow> Inr (s\<lparr>objects := (objects s)[a := Frame d']\<rparr>))))"

subsection \<open>Notions used in the statements\<close>

text \<open>
  The run goes through exactly when every designated column is present and numeric;
  \<open>numeric_keys\<close> says so for a list of labels.
\<close>

fun is_numeric :: "column \<Rightarrow> bool" where
  "is_numeric (NumCol xs) = True"
| "is_numeric (ObjCol ss) = False"

fun cells :: "column \<Rightarrow> real option list" where
  "cells (NumCol xs) = xs"
| "cells (ObjCol ss) = []"

definition numeric_keys :: "dataframe \<Rightarrow> string list \<Rightarrow> bool" where
  "numeric_keys d ks =
     list_all (\<lambda>k. case map_of (cols d) k of None \<Rightarrow> False | Some c \<Rightarrow> is_numeric c) ks"

text \<open>\<open>n_missing\<close> is the number of missing cells of a column.\<close>

definition n_missing :: "column \<Rightarrow> nat" where
  "n_missing c = (case c of NumCol xs \<Rightarrow> count_list xs None | ObjCol ss \<Rightarrow> count_list ss None)"

text \<open>
  \<open>extends s s'\<close>: the objects of \<open>s\<close> are, unchanged and at the same addresses, objects of
  \<open>s'\<close>, and every name but \<open>z_scores\<close> and \<open>outliers\<close> is bound as before.
\<close>

definition extends :: "notebook \<Rightarrow> notebook \<Rightarrow> bool" where
  "extends s s' \<longleftrightarrow>
     (\<exists>new. objects s' = objects s @ new) \<and>
     (\<forall>v. v \<noteq> ''z_scores'' \<longrightarrow> v \<noteq> ''outliers'' \<longrightarrow> globals s' v = globals s v)"

text \<open>
  \<open>clean_keys\<close>: every designated column is present and numeric and has neither a missing
  nor a negative cell.
\<close>

definition clean_keys :: "dataframe \<Rightarrow> bool" where
  "clean_keys d =
     list_all (\<lambda>k. case getitem d k of
                     Inr (NumCol xs) \<Rightarrow> list_all (\<lambda>v. case v of None \<Rightarrow> False | Some x \<Rightarrow> 0 \<le> x) xs
                   | _ \<Rightarrow> False) key_columns"

subsection \<open>Example frames\<close>

text \<open>
  The examples need a scoring function. \<open>zscore_exact\<close> is the formula of the library's
  documentation, (a - mean) / std with the population standard deviation over the
  non-missing cells, in exact arithmetic: NaN at the NaN cells, NaN everywhere when no cell
  is non-missing or when the standard deviation is 0. It is not the library function. In
  the example frames every sum, mean, squared deviation and square root that it takes is a
  small integer or a half, so that double arithmetic takes them without rounding and the
  flags of the library are the flags of the formula there.
\<close>

definition zscore_exact :: scorer where
  "zscore_exact xs =
     (let ys = nan_omit xs
      in if ys = [] then map (\<lambda>v. None) xs
         else
           (let m = sum_list ys / real (length ys);
                s = sqrt (sum_list (map (\<lambda>y. (y - m)\<^sup>2) ys) / real (length ys))
            in if s = 0 then map (\<lambda>v. None) xs
               else map (\<lambda>v. case v of None \<Rightarrow> None | Some x \<Rightarrow> Some ((x - m) / s)) xs))"

definition ex1 :: dataframe where
  "ex1 = \<lparr>nrows = 4, cols =
     [(''Timestamp'', ObjCol [Some ''t0'', Some ''t1'', Some ''t2'', Some ''t3'']),
      (''GHI'', NumCol [Some (-5), Some (-3), None, None]),
      (''DNI'', NumCol [None, None, None, None]),
      (''DHI'', NumCol [Some 1, None, Some 3, None]),
      (''ModA'', NumCol [Some 2, Some 4, Some 2, Some 4]),
      (''ModB'', NumCol [Some 7, Some 7, Some 7, Some 7]),
      (''WS'', NumCol [Some (-5/2), Some (3/2), Some (-5/2), Some (3/2)]),
      (''WSgust'', NumCol [Some 0, Some 2, Some 0, Some 2]),
      (''Tamb'', NumCol [Some (-1), None, Some 20, Some 21]),
      (''Comments'', NumCol [None, None, None, None])]\<rparr>"

definition ex_outlier :: dataframe where
  "ex_outlier = \<lparr>nrows = 17, cols =
     [(''GHI'', NumCol [Some 1, Some 1, Some 1, Some 1, Some 1, Some 1, Some 1, Some 1, Some 1,
                        Some 1, Some 1, Some 1, Some 1, Some 1, Some 1, Some 1, None]),
      (''DNI'', NumCol [None, None, None, None, None, None, None, None, None,
                        None, None, None, None, None, None, None, None]),
      (''DHI'', NumCol [Some 0, Some 2, Some 0, Some 2, Some 0, Some 2, Some 0, Some 2, None,
                        None, None, None, None, None, None, None, None]),
      (''ModA'', NumCol [Some 0, Some 0, Some 0, Some 0, Some 0, Some 0, Some 0, Some 0, Some 0,
                         Some 0, Some 0, Some 0, Some 0, Some 0, Some 0, Some 0, Some 17]),
      (''ModB'', NumCol [Some 0, Some 0, Some 0, Some 0, Some 0, Some 0, Some 0, Some 0, Some 0,
                         Some 0, Some 0, Some 0, Some 0, Some 0, Some 0, Some 0, Some 0]),
      (''WS'', NumCol [Some 0, Some 0, Some 0, Some 0, Some 5, None, None, None, None,
                       None, None, None, None, None, None, None, None]),
      (''WSgust'', NumCol [Some 3, Some 3, Some 3, Some 3, Some 3, Some 3, Some 3, Some 3, Some 3,
                           Some 3, Some 3, Some 3, Some 3, Some 3, Some 3, Some 3, Some 3])]\<rparr>"

definition ex_outlier_flags :: "bool list" where
  "ex_outlier_flags = [False, False, False, False, False, False, False, False, False,
                       False, False, False, False, False, False, False, True]"

text \<open>The frame \<open>ex1\<close> after the imputation loop, after the whole of cell 5, and the run's result.\<close>

definition ex1_imputed :: dataframe where
  "ex1_imputed = \<lparr>nrows = 4, cols =
     [(''Timestamp'', ObjCol [Some ''t0'', Some ''t1'', Some ''t2'', Some ''t3'']),
      (''GHI'', NumCol [Some (-5), Some (-3), Some (-4), Some (-4)]),
      (''DNI'', NumCol [None, None, None, None]),
      (''DHI'', NumCol [Some 1, Some 2, Some 3, Some 2]),
      (''ModA'', NumCol [Some 2, Some 4, Some 2, Some 4]),
      (''ModB'', NumCol [Some 7, Some 7, Some 7, Some 7]),
      (''WS'', NumCol [Some (-5/2), Some (3/2), Some (-5/2), Some (3/2)]),
      (''WSgust'', NumCol [Some 0, Some 2, Some 0, Some 2]),
      (''Tamb'', NumCol [Some (-1), None, Some 20, Some 21]),
      (''Comments'', NumCol [None, None, None, None])]\<rparr>"

definition ex1_cleaned :: dataframe where
  "ex1_cleaned = \<lparr>nrows = 4, cols =
     [(''Timestamp'', ObjCol [Some ''t0'', Some ''t1'', Some ''t2'', Some ''t3'']),
      (''GHI'', NumCol [Some 0, Some 0, Some 0, Some 0]),
      (''DNI'', NumCol [None, None, None, None]),
      (''DHI'', NumCol [Some 1, Some 2, Some 3, Some 2]),
      (''ModA'', NumCol [Some 2, Some 4, Some 2, Some 4]),
      (''ModB'', NumCol [Some 7, Some 7, Some 7, Some 7]),
      (''WS'', NumCol [Some 0, Some (3/2), Some 0, Some (3/2)]),
      (''WSgust'', NumCol [Some 0, Some 2, Some 0, Some 2]),
      (''Tamb'', NumCol [Some (-1), None, Some 20, Some 21])]\<rparr>"

definition ex1_outlier_report :: outlier_report where
  "ex1_outlier_report =
     \<lparr>outliers = [False, False, False, False], n_outliers = 0,
      outlier_rows = [(''GHI'', NumCol []), (''DNI'', NumCol []), (''DHI'', NumCol []),
                      (''ModA'', NumCol []), (''ModB'', NumCol []), (''WS'', NumCol []),
                      (''WSgust'', NumCol [])]\<rparr>"

definition ex1_result :: run_result where
  "ex1_result =
     \<lparr>profile = missing_report ex1, printed_profile = printed_missing_report ex1,
      outlier_rep = ex1_outlier_report, cleaned = ex1_cleaned, exported = to_csv ex1_cleaned\<rparr>"

text \<open>
  A frame that is already clean, and \<open>ex_outlier\<close> after cell 5 with what the run reports
  for it.
\<close>

definition ex_clean :: dataframe where
  "ex_clean = \<lparr>nrows = 2, cols =
     [(''Timestamp'', ObjCol [Some ''t0'', Some ''t1'']),
      (''GHI'', NumCol [Some 0, Some 120]),
      (''DNI'', NumCol [Some 0, Some 80]),
      (''DHI'', NumCol [Some 0, Some 40]),
      (''ModA'', NumCol [Some 1, Some 110]),
      (''ModB'', NumCol [Some 1, Some 105]),
      (''WS'', NumCol [Some 0, Some (3/2)]),
      (''WSgust'', NumCol [Some 0, Some 2]),
      (''Tamb'', NumCol [Some (-1), None])]\<rparr>"

definition ex_outlier_cleaned :: dataframe where
  "ex_outlier_cleaned = \<lparr>nrows = 17, cols =
     [(''GHI'', NumCol [Some 1, Some 1, Some 1, Some 1, Some 1, Some 1, Some 1, Some 1, Some 1,
                        Some 1, Some 1, Some 1, Some 1, Some 1, Some 1, Some 1, Some 1]),
      (''DNI'', NumCol [None, None, None, None, None, None, None, None, None,
                        None, None, None, None, None, None, None, None]),
      (''DHI'', NumCol [Some 0, Some 2, Some 0, Some 2, Some 0, Some 2, Some 0, Some 2, Some 1,
                        Some 1, Some 1, Some 1, Some 1, Some 1, Some 1, Some 1, Some 1]),
      (''ModA'', NumCol [Some 0, Some 0, Some 0, Some 0, Some 0, Some 0, Some 0, Some 0, Some 0,
                         Some 0, Some 0, Some 0, Some 0, Some 0, Some 0, Some 0, Some 17]),
      (''ModB'', NumCol [Some 0, Some 0, Some 0, Some 0, Some 0, Some 0, Some 0, Some 0, Some 0,
                         Some 0, Some 0, Some 0, Some 0, Some 0, Some 0, Some 0, Some 0]),
      (''WS'', NumCol [Some 0, Some 0, Some 0, Some 0, Some 5, Some 0, Some 0, Some 0, Some 0,
                       Some 0, Some 0, Some 0, Some 0, Some 0, Some 0, Some 0, Some 0]),
      (''WSgust'', NumCol [Some 3, Some 3, Some 3, Some 3, Some 3, Some 3, Some 3, Some 3, Some 3,
                           Some 3, Some 3, Some 3, Some 3, Some 3, Some 3, Some 3, Some 3])]\<rparr>"

definition ex_outlier_report :: outlier_report where
  "ex_outlier_report =
     \<lparr>outliers = ex_outlier_flags, n_outliers = 1,
      outlier_rows = [(''GHI'', NumCol [None]), (''DNI'', NumCol [None]), (''DHI'', NumCol [None]),
                      (''ModA'', NumCol [Some 17]), (''ModB'', NumCol [Some 0]),
                      (''WS'', NumCol [None]), (''WSgust'', NumCol [Some 3])]\<rparr>"

definition ex_outlier_result :: run_result where
  "ex_outlier_result =
     \<lparr>profile = missing_report ex_outlier, printed_profile = printed_missing_report ex_outlier,
      outlier_rep = ex_outlier_report, cleaned = ex_outlier_cleaned,
      exported = to_csv ex_outlier_cleaned\<rparr>"

text \<open>
  The notebook with \<open>ex1\<close> loaded as \<open>df\<close>, before and after the detector's statements.
\<close>

definition ex1_key_cols :: "(string \<times> column) list" where
  "ex1_key_cols =
     [(''GHI'', NumCol [Some (-5), Some (-3), None, None]),
      (''DNI'', NumCol [None, None, None, None]),
      (''DHI'', NumCol [Some 1, None, Some 3, None]),
      (''ModA'', NumCol [Some 2, Some 4, Some 2, Some 4]),
      (''ModB'', NumCol [Some 7, Some 7, Some 7, Some 7]),
      (''WS'', NumCol [Some (-5/2), Some (3/2), Some (-5/2), Some (3/2)]),
      (''WSgust'', NumCol [Some 0, Some 2, Some 0, Some 2])]"

definition ex1_scores :: "(string \<times> real option list) list" where
  "ex1_scores =
     [(''GHI'', [Some (-1), Some 1, None, None]),
      (''DNI'', [None, None, None, None]),
      (''DHI'', [Some (-1), None, Some 1, None]),
      (''ModA'', [Some (-1), Some 1, Some (-1), Some 1]),
      (''ModB'', [None, None, None, None]),
      (''WS'', [Some (-1), Some 1, Some (-1), Some 1]),
      (''WSgust'', [Some (-1), Some 1, Some (-1), Some 1])]"

definition ex_nb :: notebook where
  "ex_nb = \<lparr>objects = [Frame ex1], globals = [''df'' \<mapsto> 0], printed_out = []\<rparr>"

definition ex_nb_after :: notebook where
  "ex_nb_after =
     \<lparr>objects =
        [Frame ex1,
         Frame \<lparr>nrows = 4, cols = ex1_key_cols\<rparr>,
         ScoreFrame 4 ex1_scores,
         ScoreFrame 4 (abs_scores ex1_scores),
         BoolFrame 4 (above 3 (abs_scores ex1_scores)),
         BoolSeries [False, False, False, False],
         Frame (flagged_rows [False, False, False, False] ex1),
         Frame \<lparr>nrows = 0, cols = outlier_rows ex1_outlier_report\<rparr>],
      globals = [''df'' \<mapsto> 0, ''z_scores'' \<mapsto> 2, ''outliers'' \<mapsto> 5],
      printed_out = [Count 0, Table (outlier_rows ex1_outlier_report)]\<rparr>"

section \<open>Properties\<close>

subsection \<open>Selecting and assigning columns\<close>

lemma is_numeric_iff: "is_numeric c \<longleftrightarrow> (\<exists>xs. c = NumCol xs)"
  by (cases c) auto

lemma numeric_keys_iff:
  "numeric_keys d ks \<longleftrightarrow> (\<forall>k\<in>set ks. \<exists>xs. map_of (cols d) k = Some (NumCol xs))"
  by (induction ks) (auto simp: numeric_keys_def is_numeric_iff split: option.splits)

lemma getitem_Inr_iff: "getitem d k = Inr c \<longleftrightarrow> map_of (cols d) k = Some c"
  by (simp add: getitem_def split: option.splits)

lemma getitem_cols_Inr:
  "getitem_cols d ks = Inr sel \<Longrightarrow>
     (\<forall>k\<in>set ks. map_of (cols d) k \<noteq> None) \<and> sel = map (\<lambda>k. (k, the (map_of (cols d) k))) ks"
  by (induction ks arbitrary: sel) (auto split: option.splits sum.splits)

lemma getitem_cols_total:
  "\<forall>k\<in>set ks. map_of (cols d) k \<noteq> None \<Longrightarrow>
     getitem_cols d ks = Inr (map (\<lambda>k. (k, the (map_of (cols d) k))) ks)"
  by (induction ks) (auto split: option.splits sum.splits)

lemma apply_zscore_Inr:
  "apply_zscore z sel = Inr zs \<Longrightarrow>
     (\<forall>(k, c)\<in>set sel. is_numeric c) \<and> zs = map (\<lambda>(k, c). (k, z (cells c))) sel"
  by (induction z sel arbitrary: zs rule: apply_zscore.induct) (auto split: sum.splits)

lemma apply_zscore_total:
  "\<forall>(k, c)\<in>set sel. is_numeric c \<Longrightarrow>
     apply_zscore z sel = Inr (map (\<lambda>(k, c). (k, z (cells c))) sel)"
  by (induction z sel rule: apply_zscore.induct) (auto split: sum.splits)

lemma clip_cols_Inr:
  "clip_cols lo sel = Inr sel' \<Longrightarrow>
     (\<forall>(k, c)\<in>set sel. is_numeric c) \<and>
     sel' = map (\<lambda>(k, c). (k, NumCol (clip_lower lo (cells c)))) sel"
  by (induction lo sel arbitrary: sel' rule: clip_cols.induct) (auto split: sum.splits)

lemma clip_cols_total:
  "\<forall>(k, c)\<in>set sel. is_numeric c \<Longrightarrow>
     clip_cols lo sel = Inr (map (\<lambda>(k, c). (k, NumCol (clip_lower lo (cells c)))) sel)"
  by (induction lo sel rule: clip_cols.induct) (auto split: sum.splits)

lemma nrows_setitem [simp]: "nrows (setitem d k c) = nrows d"
  by (simp add: setitem_def)

lemma map_of_replace:
  "map_of (map (\<lambda>(n, c0). if n = k then (n, c) else (n, c0)) xs) n =
     (if n = k then (if map_of xs k = None then None else Some c) else map_of xs n)"
proof (induction xs)
  case Nil
  show ?case by simp
next
  case (Cons a xs)
  obtain m c1 where a: "a = (m, c1)" by (cases a)
  show ?case unfolding a using Cons.IH by (cases "n = k") auto
qed

lemma map_of_setitem: "map_of (cols (setitem d k c)) = (map_of (cols d))(k \<mapsto> c)"
proof (cases "k \<in> set (col_names d)")
  case True
  then have "map_of (cols d) k \<noteq> None"
    by (simp add: col_names_def map_of_eq_None_iff)
  with True show ?thesis
    by (simp add: setitem_def fun_eq_iff map_of_replace)
next
  case False
  then have "map_of (cols d) k = None"
    by (simp add: col_names_def map_of_eq_None_iff)
  with False show ?thesis
    by (simp add: setitem_def fun_eq_iff map_add_def split: option.splits)
qed

lemma col_names_setitem:
  "k \<in> set (col_names d) \<Longrightarrow> col_names (setitem d k c) = col_names d"
  by (auto simp: setitem_def col_names_def split_beta intro!: map_idI)

lemma in_names_iff: "k \<in> set (col_names d) \<longleftrightarrow> map_of (cols d) k \<noteq> None"
  by (simp add: col_names_def map_of_eq_None_iff)

lemma setitem_same:
  assumes "distinct (col_names d)" "map_of (cols d) k = Some c"
  shows "setitem d k c = d"
proof -
  have k: "k \<in> set (col_names d)" using assms(2) by (simp add: in_names_iff)
  have "map (\<lambda>(n, c0). if n = k then (n, c) else (n, c0)) xs = xs"
    if "distinct (map fst xs)" "map_of xs k = Some c" for xs
    using that by (induction xs) (auto split: if_splits intro!: map_idI simp: rev_image_eqI)
  with assms k show ?thesis
    by (simp add: setitem_def col_names_def)
qed

subsection \<open>The imputation loop, dropping and clipping\<close>

lemma distinct_key_columns: "distinct key_columns"
  by (simp add: key_columns_def)

lemma Comments_not_key: "''Comments'' \<notin> set key_columns"
  by (simp add: key_columns_def)

lemma length_fillna [simp]: "length (fillna xs v) = length xs"
  by (simp add: fillna_def)

lemma length_clip_lower [simp]: "length (clip_lower lo xs) = length xs"
  by (simp add: clip_lower_def)

lemma impute_col_Inr:
  "impute_col d k = Inr d' \<Longrightarrow>
     \<exists>xs. map_of (cols d) k = Some (NumCol xs) \<and>
          d' = setitem d k (NumCol (fillna xs (median (nan_omit xs))))"
  by (auto simp: impute_col_def getitem_def split: option.splits sum.splits column.splits)

lemma impute_col_total:
  "map_of (cols d) k = Some (NumCol xs) \<Longrightarrow>
     impute_col d k = Inr (setitem d k (NumCol (fillna xs (median (nan_omit xs)))))"
  by (simp add: impute_col_def getitem_def)

lemma impute_loop_Inr:
  "distinct ks \<Longrightarrow> impute_loop d ks = Inr d' \<Longrightarrow>
     nrows d' = nrows d \<and> col_names d' = col_names d \<and>
     (\<forall>n. n \<notin> set ks \<longrightarrow> map_of (cols d') n = map_of (cols d) n) \<and>
     (\<forall>k\<in>set ks. \<exists>xs. map_of (cols d) k = Some (NumCol xs) \<and>
        map_of (cols d') k = Some (NumCol (fillna xs (median (nan_omit xs)))))"
proof (induction ks arbitrary: d)
  case Nil
  then show ?case by simp
next
  case (Cons k ks)
  from Cons.prems obtain d1 where d1: "impute_col d k = Inr d1" and rest: "impute_loop d1 ks = Inr d'"
    by (auto split: sum.splits)
  from impute_col_Inr [OF d1] obtain xs where
    xs: "map_of (cols d) k = Some (NumCol xs)" and
    d1_eq: "d1 = setitem d k (NumCol (fillna xs (median (nan_omit xs))))"
    by blast
  have kin: "k \<in> set (col_names d)" using xs by (simp add: in_names_iff)
  have m1: "map_of (cols d1) = (map_of (cols d))(k \<mapsto> NumCol (fillna xs (median (nan_omit xs))))"
    by (simp add: d1_eq map_of_setitem)
  have n1: "col_names d1 = col_names d" "nrows d1 = nrows d"
    using kin by (simp_all add: d1_eq col_names_setitem)
  from Cons.prems have dk: "distinct ks" "k \<notin> set ks" by auto
  note IH = Cons.IH [OF dk(1) rest]
  show ?case
  proof (intro conjI allI impI ballI)
    show "nrows d' = nrows d" using IH n1 by simp
    show "col_names d' = col_names d" using IH n1 by simp
  next
    fix n assume "n \<notin> set (k # ks)"
    then show "map_of (cols d') n = map_of (cols d) n" using IH m1 by simp
  next
    fix j assume j: "j \<in> set (k # ks)"
    show "\<exists>xs. map_of (cols d) j = Some (NumCol xs) \<and>
            map_of (cols d') j = Some (NumCol (fillna xs (median (nan_omit xs))))"
    proof (cases "j = k")
      case True
      then have "map_of (cols d') j = map_of (cols d1) k" using IH dk(2) by simp
      then show ?thesis using True xs m1 by simp
    next
      case False
      then have "j \<in> set ks" using j by simp
      with IH obtain ys where "map_of (cols d1) j = Some (NumCol ys)"
        "map_of (cols d') j = Some (NumCol (fillna ys (median (nan_omit ys))))" by blast
      then show ?thesis using False m1 by simp
    qed
  qed
qed

lemma numeric_keys_setitem:
  "numeric_keys d ks \<Longrightarrow> numeric_keys (setitem d k (NumCol ys)) ks"
  by (simp add: numeric_keys_iff map_of_setitem)

lemma impute_loop_total:
  "numeric_keys d ks \<Longrightarrow> \<exists>d'. impute_loop d ks = Inr d'"
proof (induction ks arbitrary: d)
  case Nil
  show ?case by simp
next
  case (Cons k ks)
  then obtain xs where xs: "map_of (cols d) k = Some (NumCol xs)"
    by (auto simp: numeric_keys_iff)
  have "numeric_keys d ks" using Cons.prems by (simp add: numeric_keys_def)
  then have "numeric_keys (setitem d k (NumCol (fillna xs (median (nan_omit xs))))) ks"
    by (rule numeric_keys_setitem)
  from Cons.IH [OF this] show ?case
    by (simp add: impute_col_total [OF xs])
qed

lemma impute_loop_numeric:
  "impute_loop d ks = Inr d' \<Longrightarrow> numeric_keys d' ks0 = numeric_keys d ks0"
proof (induction ks arbitrary: d)
  case Nil
  then show ?case by simp
next
  case (Cons k ks)
  from Cons.prems obtain d1 where d1: "impute_col d k = Inr d1" and rest: "impute_loop d1 ks = Inr d'"
    by (auto split: sum.splits)
  from impute_col_Inr [OF d1] obtain xs where
    xs: "map_of (cols d) k = Some (NumCol xs)" and
    d1_eq: "d1 = setitem d k (NumCol (fillna xs (median (nan_omit xs))))"
    by blast
  have "numeric_keys d1 ks0 = numeric_keys d ks0"
    using xs by (auto simp: d1_eq numeric_keys_iff map_of_setitem)
  with Cons.IH [OF rest] show ?case by simp
qed

lemma map_of_drop_columns:
  "map_of (cols (drop_columns d ks)) n = (if n \<in> set ks then None else map_of (cols d) n)"
proof -
  have "map_of (filter (\<lambda>(n, c). n \<notin> set ks) xs) n = (if n \<in> set ks then None else map_of xs n)"
    for xs :: "(string \<times> column) list"
    by (induction xs) auto
  then show ?thesis by (simp add: drop_columns_def)
qed

lemma col_names_drop_columns:
  "col_names (drop_columns d ks) = filter (\<lambda>n. n \<notin> set ks) (col_names d)"
  by (simp add: drop_columns_def col_names_def filter_map comp_def case_prod_unfold)

lemma nrows_drop_columns [simp]: "nrows (drop_columns d ks) = nrows d"
  by (simp add: drop_columns_def)

lemma setitem_cols_frame:
  "\<forall>k\<in>fst ` set cs. k \<in> set (col_names d) \<Longrightarrow>
     nrows (setitem_cols d cs) = nrows d \<and> col_names (setitem_cols d cs) = col_names d"
proof (induction cs arbitrary: d)
  case Nil
  show ?case by simp
next
  case (Cons a cs)
  obtain k c where a: "a = (k, c)" by (cases a)
  have "\<forall>j\<in>fst ` set cs. j \<in> set (col_names (setitem d k c))"
    using Cons.prems by (simp add: a col_names_setitem)
  from Cons.IH [OF this] show ?case
    using Cons.prems by (simp add: a col_names_setitem)
qed

lemma map_of_setitem_cols:
  "distinct (map fst cs) \<Longrightarrow>
     map_of (cols (setitem_cols d cs)) n =
       (case map_of cs n of None \<Rightarrow> map_of (cols d) n | Some c \<Rightarrow> Some c)"
proof (induction cs arbitrary: d)
  case Nil
  show ?case by simp
next
  case (Cons a cs)
  obtain k c where a: "a = (k, c)" by (cases a)
  from Cons.prems have dk: "distinct (map fst cs)" "map_of cs k = None"
    by (auto simp: a map_of_eq_None_iff)
  show ?case
    using Cons.IH [OF dk(1), of "setitem d k c"] dk(2)
    by (simp add: a map_of_setitem split: option.splits)
qed

lemma map_of_map_key:
  "map_of (map (\<lambda>k. (k, f k)) ks) n = (if n \<in> set ks then Some (f n) else None)"
  by (induction ks) auto

lemma clip_frame:
  assumes "distinct ks" "getitem_cols d ks = Inr sel" "clip_cols lo sel = Inr sel'"
  shows "nrows (setitem_cols d sel') = nrows d \<and>
         col_names (setitem_cols d sel') = col_names d \<and>
         (\<forall>n. n \<notin> set ks \<longrightarrow> map_of (cols (setitem_cols d sel')) n = map_of (cols d) n) \<and>
         (\<forall>k\<in>set ks. \<exists>xs. map_of (cols d) k = Some (NumCol xs) \<and>
            map_of (cols (setitem_cols d sel')) k = Some (NumCol (clip_lower lo xs)))"
proof -
  from getitem_cols_Inr [OF assms(2)] have
    present: "\<forall>k\<in>set ks. map_of (cols d) k \<noteq> None" and
    sel: "sel = map (\<lambda>k. (k, the (map_of (cols d) k))) ks"
    by simp_all
  from clip_cols_Inr [OF assms(3)] have
    num: "\<forall>(k, c)\<in>set sel. is_numeric c" and
    sel': "sel' = map (\<lambda>(k, c). (k, NumCol (clip_lower lo (cells c)))) sel"
    by simp_all
  have sel'_eq: "sel' = map (\<lambda>k. (k, NumCol (clip_lower lo (cells (the (map_of (cols d) k)))))) ks"
    by (simp add: sel' sel comp_def)
  have keys: "map fst sel' = ks"
    by (simp add: sel'_eq comp_def)
  have "\<forall>k\<in>fst ` set sel'. k \<in> set (col_names d)"
    using present keys by (metis in_names_iff list.set_map)
  from setitem_cols_frame [OF this] have frame:
    "nrows (setitem_cols d sel') = nrows d" "col_names (setitem_cols d sel') = col_names d"
    by simp_all
  have lookup: "map_of (cols (setitem_cols d sel')) n =
      (if n \<in> set ks then Some (NumCol (clip_lower lo (cells (the (map_of (cols d) n)))))
       else map_of (cols d) n)" for n
    using map_of_setitem_cols [of sel' d n] assms(1) keys
    by (simp add: sel'_eq map_of_map_key)
  have "\<exists>xs. map_of (cols d) k = Some (NumCol xs) \<and>
          map_of (cols (setitem_cols d sel')) k = Some (NumCol (clip_lower lo xs))"
    if k: "k \<in> set ks" for k
  proof -
    from present k obtain c where c: "map_of (cols d) k = Some c" by auto
    with k have "(k, c) \<in> set sel" by (force simp: sel)
    with num obtain xs where "c = NumCol xs" by (auto simp: is_numeric_iff)
    with c k lookup [of k] show ?thesis by simp
  qed
  with frame lookup show ?thesis by simp
qed

lemma clip_key_columns_Inr:
  assumes "clip_key_columns d = Inr d'"
  shows "nrows d' = nrows d \<and> col_names d' = col_names d \<and>
         (\<forall>n. n \<notin> set key_columns \<longrightarrow> map_of (cols d') n = map_of (cols d) n) \<and>
         (\<forall>k\<in>set key_columns. \<exists>xs. map_of (cols d) k = Some (NumCol xs) \<and>
            map_of (cols d') k = Some (NumCol (clip_lower 0 xs)))"
proof -
  from assms obtain sel sel' where
    "getitem_cols d key_columns = Inr sel" "clip_cols 0 sel = Inr sel'" "d' = setitem_cols d sel'"
    by (auto simp: clip_key_columns_def split: sum.splits)
  with clip_frame [OF distinct_key_columns, of d sel 0 sel'] show ?thesis by simp
qed

lemma numeric_keys_select:
  assumes "numeric_keys d ks"
  shows "getitem_cols d ks = Inr (map (\<lambda>k. (k, the (map_of (cols d) k))) ks)"
    and "\<forall>(k, c)\<in>set (map (\<lambda>k. (k, the (map_of (cols d) k))) ks). is_numeric c"
proof -
  from assms have *: "\<forall>k\<in>set ks. \<exists>xs. map_of (cols d) k = Some (NumCol xs)"
    by (simp add: numeric_keys_iff)
  then have "\<forall>k\<in>set ks. map_of (cols d) k \<noteq> None" by auto
  then show "getitem_cols d ks = Inr (map (\<lambda>k. (k, the (map_of (cols d) k))) ks)"
    by (rule getitem_cols_total)
  show "\<forall>(k, c)\<in>set (map (\<lambda>k. (k, the (map_of (cols d) k))) ks). is_numeric c"
    using * by auto
qed

lemma select_numeric_keys:
  assumes "getitem_cols d ks = Inr sel" "\<forall>(k, c)\<in>set sel. is_numeric c"
  shows "numeric_keys d ks"
proof -
  from getitem_cols_Inr [OF assms(1)] have
    present: "\<forall>k\<in>set ks. map_of (cols d) k \<noteq> None" and
    sel: "sel = map (\<lambda>k. (k, the (map_of (cols d) k))) ks"
    by simp_all
  have "\<exists>xs. map_of (cols d) k = Some (NumCol xs)" if k: "k \<in> set ks" for k
  proof -
    from present k obtain c where c: "map_of (cols d) k = Some c" by auto
    with k have "(k, c) \<in> set sel" by (force simp: sel)
    with assms(2) c show ?thesis by (auto simp: is_numeric_iff)
  qed
  then show ?thesis by (simp add: numeric_keys_iff)
qed

lemma clip_key_columns_total:
  "numeric_keys d key_columns \<Longrightarrow> \<exists>d'. clip_key_columns d = Inr d'"
  using numeric_keys_select [of d key_columns]
  by (simp add: clip_key_columns_def clip_cols_total)

lemma clip_key_columns_numeric:
  assumes "clip_key_columns d = Inr d'"
  shows "numeric_keys d key_columns"
proof -
  from assms obtain sel sel' where
    "getitem_cols d key_columns = Inr sel" "clip_cols 0 sel = Inr sel'"
    by (auto simp: clip_key_columns_def split: sum.splits)
  then show ?thesis
    using clip_cols_Inr select_numeric_keys by blast
qed

lemma numeric_keys_drop_Comments:
  "numeric_keys (drop_columns d [''Comments'']) key_columns = numeric_keys d key_columns"
  using Comments_not_key
  by (auto simp: numeric_keys_iff map_of_drop_columns)

lemma normalizer_Inr:
  assumes "normalizer d = Inr d'"
  shows "nrows d' = nrows d \<and>
         col_names d' = filter (\<lambda>n. n \<noteq> ''Comments'') (col_names d) \<and>
         map_of (cols d') ''Comments'' = None \<and>
         (\<forall>n. n \<notin> set key_columns \<longrightarrow> n \<noteq> ''Comments'' \<longrightarrow> map_of (cols d') n = map_of (cols d) n) \<and>
         (\<forall>k\<in>set key_columns. \<exists>xs. map_of (cols d) k = Some (NumCol xs) \<and>
            map_of (cols d') k = Some (NumCol (clip_lower 0 xs)))"
proof -
  from assms have "clip_key_columns (drop_columns d [''Comments'']) = Inr d'"
    by (simp add: normalizer_def)
  from clip_key_columns_Inr [OF this] show ?thesis
    using Comments_not_key
    by (simp add: map_of_drop_columns col_names_drop_columns) metis
qed

lemma normalizer_total_iff:
  "(\<exists>d'. normalizer d = Inr d') \<longleftrightarrow> numeric_keys d key_columns"
  unfolding normalizer_def
  using clip_key_columns_total [of "drop_columns d [''Comments'']"]
    clip_key_columns_numeric [of "drop_columns d [''Comments'']"]
  by (auto simp: numeric_keys_drop_Comments)

lemma imputer_Inr:
  assumes "imputer d = Inr d'"
  shows "nrows d' = nrows d \<and> col_names d' = col_names d \<and>
     (\<forall>n. n \<notin> set key_columns \<longrightarrow> map_of (cols d') n = map_of (cols d) n) \<and>
     (\<forall>k\<in>set key_columns. \<exists>xs. map_of (cols d) k = Some (NumCol xs) \<and>
        map_of (cols d') k = Some (NumCol (fillna xs (median (nan_omit xs)))))"
  using impute_loop_Inr [OF distinct_key_columns, of d d'] assms
  by (simp add: imputer_def)

lemma imputer_total_iff:
  "(\<exists>d'. imputer d = Inr d') \<longleftrightarrow> numeric_keys d key_columns"
proof
  assume "\<exists>d'. imputer d = Inr d'"
  then obtain d' where "imputer d = Inr d'" ..
  from imputer_Inr [OF this] show "numeric_keys d key_columns"
    by (auto simp: numeric_keys_iff)
next
  assume "numeric_keys d key_columns"
  then show "\<exists>d'. imputer d = Inr d'"
    unfolding imputer_def by (rule impute_loop_total)
qed

subsection \<open>The detector and the whole run\<close>

lemma detect_outliers_Inr:
  assumes "detect_outliers z d = Inr m"
  shows "numeric_keys d key_columns \<and>
         m = any_axis1 (nrows d)
               (map (\<lambda>k. abs_gt 3 (z (cells (the (map_of (cols d) k))))) key_columns)"
proof -
  from assms obtain sel zs where
    sel: "getitem_cols d key_columns = Inr sel" and zs: "apply_zscore z sel = Inr zs" and
    m: "m = any_axis1 (nrows d) (map (\<lambda>(k, zs). abs_gt 3 zs) zs)"
    by (auto simp: detect_outliers_def split: sum.splits)
  from apply_zscore_Inr [OF zs] have
    num: "\<forall>(k, c)\<in>set sel. is_numeric c" and
    zs_eq: "zs = map (\<lambda>(k, c). (k, z (cells c))) sel"
    by simp_all
  from getitem_cols_Inr [OF sel] have
    sel_eq: "sel = map (\<lambda>k. (k, the (map_of (cols d) k))) key_columns" by simp
  have "map (\<lambda>(k, zs). abs_gt 3 zs) zs =
        map (\<lambda>k. abs_gt 3 (z (cells (the (map_of (cols d) k))))) key_columns"
    by (simp add: zs_eq sel_eq comp_def)
  with m select_numeric_keys [OF sel num] show ?thesis by simp
qed

lemma detect_outliers_total:
  assumes "numeric_keys d key_columns"
  shows "\<exists>m. detect_outliers z d = Inr m"
  using numeric_keys_select [OF assms]
  by (simp add: detect_outliers_def apply_zscore_total)

lemma length_any_axis1 [simp]: "length (any_axis1 n ms) = n"
  by (simp add: any_axis1_def)

lemma map_of_mask:
  "map_of (map (\<lambda>(n, c). (n, mask_col m c)) xs) k = map_option (mask_col m) (map_of xs k)"
  by (induction xs) auto

lemma outlier_detector_Inr:
  assumes "outlier_detector z d = Inr (rep, d')"
  shows "d' = d \<and> detect_outliers z d = Inr (outliers rep)"
  using assms by (auto simp: outlier_detector_def split: sum.splits)

lemma outlier_detector_total:
  assumes "numeric_keys d key_columns"
  shows "\<exists>rep. outlier_detector z d = Inr (rep, d)"
proof -
  from detect_outliers_total [OF assms] obtain m where m: "detect_outliers z d = Inr m" ..
  let ?dm = "flagged_rows m d"
  have "\<forall>k\<in>set key_columns. map_of (cols ?dm) k \<noteq> None"
    using assms by (auto simp: numeric_keys_iff map_of_mask flagged_rows_def)
  from getitem_cols_total [OF this] show ?thesis
    by (simp add: outlier_detector_def m)
qed

lemma cleaning_pipeline_Inr:
  assumes "cleaning_pipeline z d = Inr r"
  shows "\<exists>d2. outlier_detector z d = Inr (outlier_rep r, d) \<and> imputer d = Inr d2 \<and>
           normalizer d2 = Inr (cleaned r) \<and> exported r = to_csv (cleaned r) \<and>
           profile r = missing_report d \<and> printed_profile r = printed_missing_report d"
proof -
  from assms obtain orep d1 d2 d3 where
    od: "outlier_detector z d = Inr (orep, d1)" and im: "imputer d1 = Inr d2" and
    no: "normalizer d2 = Inr d3" and
    r: "r = \<lparr>profile = missing_report d, printed_profile = printed_missing_report d,
             outlier_rep = orep, cleaned = d3, exported = to_csv d3\<rparr>"
    by (auto simp: cleaning_pipeline_def Let_def split: sum.splits prod.splits)
  from outlier_detector_Inr [OF od] have "d1 = d" by simp
  with od im no r show ?thesis by auto
qed

lemma cleaning_pipeline_total_iff:
  "(\<exists>r. cleaning_pipeline z d = Inr r) \<longleftrightarrow> numeric_keys d key_columns"
proof
  assume "\<exists>r. cleaning_pipeline z d = Inr r"
  then obtain r where "cleaning_pipeline z d = Inr r" ..
  from cleaning_pipeline_Inr [OF this] imputer_total_iff [of d]
  show "numeric_keys d key_columns" by blast
next
  assume nk: "numeric_keys d key_columns"
  from outlier_detector_total [OF nk] obtain rep where od: "outlier_detector z d = Inr (rep, d)" ..
  from nk obtain d2 where im: "imputer d = Inr d2"
    using imputer_total_iff by blast
  have "numeric_keys d2 key_columns"
    using im nk impute_loop_numeric [of d key_columns d2 key_columns] by (simp add: imputer_def)
  then obtain d3 where no: "normalizer d2 = Inr d3"
    using normalizer_total_iff by blast
  show "\<exists>r. cleaning_pipeline z d = Inr r"
    by (simp add: cleaning_pipeline_def od im no)
qed

lemma cleaning_pipeline_cols:
  assumes "cleaning_pipeline z d = Inr r"
  shows "nrows (cleaned r) = nrows d \<and>
         col_names (cleaned r) = filter (\<lambda>n. n \<noteq> ''Comments'') (col_names d) \<and>
         map_of (cols (cleaned r)) ''Comments'' = None \<and>
         (\<forall>n. n \<notin> set key_columns \<longrightarrow> n \<noteq> ''Comments'' \<longrightarrow>
              map_of (cols (cleaned r)) n = map_of (cols d) n) \<and>
         (\<forall>k\<in>set key_columns. \<exists>xs. map_of (cols d) k = Some (NumCol xs) \<and>
            map_of (cols (cleaned r)) k =
              Some (NumCol (clip_lower 0 (fillna xs (median (nan_omit xs))))))"
proof -
  from cleaning_pipeline_Inr [OF assms] obtain d2 where
    im: "imputer d = Inr d2" and no: "normalizer d2 = Inr (cleaned r)" by blast
  note I = imputer_Inr [OF im] and N = normalizer_Inr [OF no]
  have "\<exists>xs. map_of (cols d) k = Some (NumCol xs) \<and>
            map_of (cols (cleaned r)) k =
              Some (NumCol (clip_lower 0 (fillna xs (median (nan_omit xs)))))"
    if k: "k \<in> set key_columns" for k
  proof -
    from I k obtain xs where xs: "map_of (cols d) k = Some (NumCol xs)"
      "map_of (cols d2) k = Some (NumCol (fillna xs (median (nan_omit xs))))" by blast
    from N k obtain ys where "map_of (cols d2) k = Some (NumCol ys)"
      "map_of (cols (cleaned r)) k = Some (NumCol (clip_lower 0 ys))" by blast
    with xs show ?thesis by simp
  qed
  with I N show ?thesis by simp
qed

subsection \<open>Well-formed frames\<close>

lemma wf_df_iff:
  "wf_df d \<longleftrightarrow> distinct (col_names d) \<and> (\<forall>k c. map_of (cols d) k = Some c \<longrightarrow> col_len c = nrows d)"
proof -
  have "distinct (map fst xs) \<Longrightarrow>
        list_all (\<lambda>(n, c). col_len c = N) xs \<longleftrightarrow> (\<forall>k c. map_of xs k = Some c \<longrightarrow> col_len c = N)"
    for xs :: "(string \<times> column) list" and N
    by (auto simp: list_all_iff dest: map_of_SomeD)
  then show ?thesis
    by (auto simp: wf_df_def col_names_def)
qed

subsection \<open>Cells\<close>

lemma nan_omit_empty_iff: "nan_omit xs = [] \<longleftrightarrow> set xs \<subseteq> {None}"
  by (induction xs rule: nan_omit.induct) auto

lemma median_None_iff: "median ys = None \<longleftrightarrow> ys = []"
proof -
  have "sort ys = [] \<longleftrightarrow> ys = []"
    by (metis length_0_conv length_sort)
  then show ?thesis
    by (simp add: median_def Let_def del: not_None_eq)
qed

lemma median_Nil: "median [] = None"
  by (simp add: median_def)

lemma fillna_None [simp]: "fillna xs None = xs"
  by (simp add: fillna_def map_idI split: option.splits)

lemma fillna_nth:
  "i < length xs \<Longrightarrow> fillna xs v ! i = (case xs ! i of None \<Rightarrow> v | Some x \<Rightarrow> Some x)"
  by (simp add: fillna_def)

lemma None_notin_fillna: "v \<noteq> None \<Longrightarrow> None \<notin> set (fillna xs v)"
  by (auto simp: fillna_def split: option.splits)

lemma clip_lower_nth:
  "i < length xs \<Longrightarrow>
     clip_lower lo xs ! i = (case xs ! i of None \<Rightarrow> None | Some x \<Rightarrow> Some (if x < lo then lo else x))"
  by (simp add: clip_lower_def)

lemma None_in_clip_lower: "None \<in> set (clip_lower lo xs) \<longleftrightarrow> None \<in> set xs"
  by (auto simp: clip_lower_def split: option.splits)

lemma clip_lower_ge: "Some y \<in> set (clip_lower lo xs) \<Longrightarrow> lo \<le> y"
  by (auto simp: clip_lower_def split: option.splits if_splits)

lemma clip_lower_id: "\<forall>x. Some x \<in> set xs \<longrightarrow> lo \<le> x \<Longrightarrow> clip_lower lo xs = xs"
  by (fastforce simp: clip_lower_def intro!: map_idI split: option.splits)

lemma clip_lower_all_missing: "nan_omit xs = [] \<Longrightarrow> clip_lower lo xs = xs"
  by (rule clip_lower_id) (auto simp: nan_omit_empty_iff)

subsection \<open>The mask\<close>

lemma any_axis1_nth:
  "i < n \<Longrightarrow> any_axis1 n ms ! i = list_ex (\<lambda>m. i < length m \<and> m ! i) ms"
  by (simp add: any_axis1_def)

subsection \<open>The missing-value report\<close>

lemma count_missing: "length (filter (\<lambda>v. v = None) xs) = count_list xs None"
  by (induction xs) auto

lemma isna_sum_eq: "isna_sum c = n_missing c"
  by (cases c) (simp_all add: isna_sum_def n_missing_def count_missing comp_def)

lemma missing_report_eq:
  "missing_report d =
     map (\<lambda>(n, c). \<lparr>label = n, Missing_Values = isna_sum c,
                    Percentage = (if nrows d = 0 then None
                                  else Some (real (isna_sum c) / real (nrows d) * 100))\<rparr>) (cols d)"
  by (simp add: missing_report_def missing_values_def missing_percentage_def zip_map_map
      zip_same_conv_map case_prod_unfold)

lemma printed_missing_report_eq:
  assumes "0 < nrows d"
  shows "printed_missing_report d =
           map (\<lambda>(n, c). \<lparr>label = n, Missing_Values = n_missing c,
                          Percentage = Some (real (n_missing c) / real (nrows d) * 100)\<rparr>)
             (filter (\<lambda>(n, c). real (n_missing c) / real (nrows d) * 100 > 5) (cols d))"
  using assms
  by (simp add: printed_missing_report_def missing_report_eq isna_sum_eq filter_map comp_def
      case_prod_unfold)

lemma printed_missing_report_labels:
  "set (printed_missing_report d) = {r \<in> set (missing_report d). gt (Percentage r) 5}"
  by (simp add: printed_missing_report_def)

subsection \<open>The detector on the example with an outlier\<close>

lemma sqrt_16: "sqrt 16 = 4"
  using real_sqrt_abs [of 4] by simp

lemma zscore_ModA:
  "zscore_exact [Some 0, Some 0, Some 0, Some 0, Some 0, Some 0, Some 0, Some 0, Some 0,
           Some 0, Some 0, Some 0, Some 0, Some 0, Some 0, Some 0, Some 17] =
   [Some (-1/4), Some (-1/4), Some (-1/4), Some (-1/4), Some (-1/4), Some (-1/4), Some (-1/4), Some (-1/4), Some (-1/4),
    Some (-1/4), Some (-1/4), Some (-1/4), Some (-1/4), Some (-1/4), Some (-1/4), Some (-1/4), Some 4]"
  by (simp add: zscore_exact_def sqrt_16)

lemma zscore_WS:
  "zscore_exact [Some 0, Some 0, Some 0, Some 0, Some 5, None, None, None, None,
           None, None, None, None, None, None, None, None] =
   [Some (-1/2), Some (-1/2), Some (-1/2), Some (-1/2), Some 2, None, None, None, None,
    None, None, None, None, None, None, None, None]"
  by (simp add: zscore_exact_def)

lemma detect_ex_outlier: "detect_outliers zscore_exact ex_outlier = Inr ex_outlier_flags"
  by (simp add: ex_outlier_def ex_outlier_flags_def detect_outliers_def key_columns_def
      zscore_ModA zscore_WS zscore_exact_def abs_gt_def any_axis1_def upt_rec)

subsection \<open>The runs on the example frames\<close>

lemma detector_ex1: "outlier_detector zscore_exact ex1 = Inr (ex1_outlier_report, ex1)"
  by (simp add: ex1_def ex1_outlier_report_def outlier_detector_def detect_outliers_def flagged_rows_def
      key_columns_def zscore_exact_def abs_gt_def any_axis1_def upt_rec)

lemma imputer_ex1: "imputer ex1 = Inr ex1_imputed"
  by (simp add: ex1_def ex1_imputed_def imputer_def impute_col_def getitem_def setitem_def
      col_names_def key_columns_def median_def fillna_def)

lemma normalizer_ex1_imputed: "normalizer ex1_imputed = Inr ex1_cleaned"
  by (simp add: ex1_imputed_def ex1_cleaned_def normalizer_def drop_columns_def
      clip_key_columns_def key_columns_def setitem_def col_names_def clip_lower_def)

lemma normalizer_ex1_cleaned: "normalizer ex1_cleaned = Inr ex1_cleaned"
  by (simp add: ex1_cleaned_def normalizer_def drop_columns_def
      clip_key_columns_def key_columns_def setitem_def col_names_def clip_lower_def)

lemma run_ex1: "cleaning_pipeline zscore_exact ex1 = Inr ex1_result"
  by (simp add: cleaning_pipeline_def detector_ex1 imputer_ex1 normalizer_ex1_imputed ex1_result_def)

lemma numeric_keys_ex1: "numeric_keys ex1 key_columns"
  by (simp add: numeric_keys_def ex1_def key_columns_def)

lemma detector_ex_outlier: "outlier_detector zscore_exact ex_outlier = Inr (ex_outlier_report, ex_outlier)"
  by (simp add: outlier_detector_def detect_ex_outlier)
    (simp add: ex_outlier_def ex_outlier_flags_def ex_outlier_report_def key_columns_def
      flagged_rows_def)

lemma imputer_ex_outlier:
  "imputer ex_outlier = Inr (ex_outlier_cleaned)"
  by (simp add: ex_outlier_def ex_outlier_cleaned_def imputer_def impute_col_def getitem_def
      setitem_def col_names_def key_columns_def median_def fillna_def)

lemma normalizer_ex_outlier_cleaned: "normalizer ex_outlier_cleaned = Inr ex_outlier_cleaned"
  by (simp add: ex_outlier_cleaned_def normalizer_def drop_columns_def
      clip_key_columns_def key_columns_def setitem_def col_names_def clip_lower_def)

lemma run_ex_outlier: "cleaning_pipeline zscore_exact ex_outlier = Inr ex_outlier_result"
  by (simp add: cleaning_pipeline_def detector_ex_outlier imputer_ex_outlier
      normalizer_ex_outlier_cleaned ex_outlier_result_def)

lemma wf_ex_clean: "wf_df ex_clean"
  by (simp add: wf_df_def ex_clean_def col_names_def)

subsection \<open>Export, well-formedness and fixed points of the Normalizer\<close>

lemma to_csv_lines:
  "length (data_lines (to_csv d)) = nrows d"
  "i < nrows d \<Longrightarrow> data_lines (to_csv d) ! i = map (\<lambda>(n, c). cell_at c i) (cols d)"
  "header_line (to_csv d) = col_names d"
  by (simp_all add: to_csv_def)

lemma cleaning_pipeline_wf:
  assumes "cleaning_pipeline z d = Inr r" and "wf_df d"
  shows "wf_df (cleaned r)"
proof -
  note P = cleaning_pipeline_cols [OF assms(1)]
  from assms(2) have dist: "distinct (col_names d)" and
    len: "\<And>k c. map_of (cols d) k = Some c \<Longrightarrow> col_len c = nrows d"
    by (simp_all add: wf_df_iff)
  have "distinct (col_names (cleaned r))"
    using P dist by simp
  moreover have "col_len c = nrows (cleaned r)" if c: "map_of (cols (cleaned r)) k = Some c" for k c
  proof (cases "k \<in> set key_columns")
    case True
    with P obtain xs where xs: "map_of (cols d) k = Some (NumCol xs)"
      "map_of (cols (cleaned r)) k = Some (NumCol (clip_lower 0 (fillna xs (median (nan_omit xs)))))"
      by blast
    with c len [OF xs(1)] P show ?thesis by auto
  next
    case False
    with c P have "k \<noteq> ''Comments''" by auto
    with False P c have "map_of (cols d) k = Some c" by simp
    from len [OF this] P show ?thesis by simp
  qed
  ultimately show ?thesis by (simp add: wf_df_iff)
qed

lemma setitem_cols_same:
  "distinct (col_names d) \<Longrightarrow> \<forall>(k, c)\<in>set cs. map_of (cols d) k = Some c \<Longrightarrow> setitem_cols d cs = d"
  by (induction cs) (auto simp: setitem_same)

lemma drop_columns_absent:
  "\<forall>k\<in>set ks. k \<notin> set (col_names d) \<Longrightarrow> drop_columns d ks = d"
proof -
  assume "\<forall>k\<in>set ks. k \<notin> set (col_names d)"
  then have "filter (\<lambda>(n, c). n \<notin> set ks) (cols d) = cols d"
    by (auto simp: col_names_def filter_id_conv)
  then show ?thesis by (simp add: drop_columns_def)
qed

lemma clip_key_columns_fixpoint:
  assumes "distinct (col_names d)"
    and "\<forall>k\<in>set key_columns. \<exists>xs. map_of (cols d) k = Some (NumCol xs) \<and> (\<forall>x. Some x \<in> set xs \<longrightarrow> 0 \<le> x)"
  shows "clip_key_columns d = Inr d"
proof -
  let ?sel = "map (\<lambda>k. (k, the (map_of (cols d) k))) key_columns"
  from assms(2) have nk: "numeric_keys d key_columns"
    by (auto simp: numeric_keys_iff)
  note S = numeric_keys_select [OF nk]
  have "map (\<lambda>(k, c). (k, NumCol (clip_lower 0 (cells c)))) ?sel = ?sel"
  proof (rule map_idI)
    fix p assume "p \<in> set ?sel"
    then obtain k where k: "k \<in> set key_columns" and p: "p = (k, the (map_of (cols d) k))"
      by auto
    from assms(2) k obtain xs where "map_of (cols d) k = Some (NumCol xs)"
      "\<forall>x. Some x \<in> set xs \<longrightarrow> 0 \<le> x" by blast
    then show "(case p of (k, c) \<Rightarrow> (k, NumCol (clip_lower 0 (cells c)))) = p"
      by (simp add: p clip_lower_id)
  qed
  with clip_cols_total [OF S(2), of 0] have c: "clip_cols 0 ?sel = Inr ?sel" by simp
  have "\<forall>(k, c)\<in>set ?sel. map_of (cols d) k = Some c"
    using assms(2) by auto
  from setitem_cols_same [OF assms(1) this] show ?thesis
    by (simp add: clip_key_columns_def S(1) c)
qed

lemma normalizer_fixpoint:
  assumes "distinct (col_names d)" and "''Comments'' \<notin> set (col_names d)"
    and "\<forall>k\<in>set key_columns. \<exists>xs. map_of (cols d) k = Some (NumCol xs) \<and> (\<forall>x. Some x \<in> set xs \<longrightarrow> 0 \<le> x)"
  shows "normalizer d = Inr d"
  using assms by (simp add: normalizer_def drop_columns_absent clip_key_columns_fixpoint)

lemma normalizer_twice:
  assumes "distinct (col_names d)" and "normalizer d = Inr d'"
  shows "normalizer d' = Inr d'"
proof (rule normalizer_fixpoint)
  note N = normalizer_Inr [OF assms(2)]
  show "distinct (col_names d')" using N assms(1) by simp
  show "''Comments'' \<notin> set (col_names d')" using N by simp
  show "\<forall>k\<in>set key_columns. \<exists>xs. map_of (cols d') k = Some (NumCol xs) \<and> (\<forall>x. Some x \<in> set xs \<longrightarrow> 0 \<le> x)"
    using N clip_lower_ge by blast
qed

lemma clean_keys_iff:
  "clean_keys d \<longleftrightarrow>
     (\<forall>k\<in>set key_columns. \<exists>xs. getitem d k = Inr (NumCol xs) \<and> None \<notin> set xs \<and>
        (\<forall>x. Some x \<in> set xs \<longrightarrow> 0 \<le> x))"
proof -
  have "list_all (\<lambda>v. case v of None \<Rightarrow> False | Some x \<Rightarrow> 0 \<le> x) xs \<longleftrightarrow>
        None \<notin> set xs \<and> (\<forall>x. Some x \<in> set xs \<longrightarrow> 0 \<le> x)" for xs :: "real option list"
    by (induction xs) (auto split: option.splits)
  then have "(case getitem d k of
                Inr (NumCol xs) \<Rightarrow> list_all (\<lambda>v. case v of None \<Rightarrow> False | Some x \<Rightarrow> 0 \<le> x) xs
              | _ \<Rightarrow> False) \<longleftrightarrow>
             (\<exists>xs. getitem d k = Inr (NumCol xs) \<and> None \<notin> set xs \<and>
                (\<forall>x. Some x \<in> set xs \<longrightarrow> 0 \<le> x))" for k
    by (simp split: sum.splits column.splits)
  then show ?thesis
    by (simp add: clean_keys_def list_all_iff)
qed

lemma nth_distinct_lookup:
  "distinct (map fst xs) \<Longrightarrow> j < length xs \<Longrightarrow> map_of xs (fst (xs ! j)) = Some (snd (xs ! j))"
  by simp

subsection \<open>The detector's statements on the notebook's objects\<close>

lemma extends_refl: "extends s s"
  unfolding extends_def by simp

lemma extends_trans:
  assumes "extends s s1" and "extends s1 s2"
  shows "extends s s2"
proof -
  from assms obtain n1 n2 where "objects s1 = objects s @ n1" "objects s2 = objects s1 @ n2"
    unfolding extends_def by (elim conjE exE)
  then have "objects s2 = objects s @ (n1 @ n2)" by simp
  then have "\<exists>new. objects s2 = objects s @ new" ..
  moreover from assms have
    "\<forall>v. v \<noteq> ''z_scores'' \<longrightarrow> v \<noteq> ''outliers'' \<longrightarrow> globals s2 v = globals s v"
    unfolding extends_def by simp
  ultimately show ?thesis unfolding extends_def by (rule conjI)
qed

lemma extends_load:
  assumes "extends s s'" and "v \<noteq> ''z_scores''" and "v \<noteq> ''outliers''" and "load v s = Inr x"
  shows "load v s' = Inr x"
proof -
  from assms(1) obtain new where new: "objects s' = objects s @ new"
    unfolding extends_def by (elim conjE exE)
  from assms(1) have "\<forall>v. v \<noteq> ''z_scores'' \<longrightarrow> v \<noteq> ''outliers'' \<longrightarrow> globals s' v = globals s v"
    unfolding extends_def by (elim conjE)
  with assms(2,3) have g: "globals s' v = globals s v"
    by simp
  from assms(4) obtain a where a: "globals s v = Some a" "a < length (objects s)" "objects s ! a = x"
    unfolding load_def by (cases "globals s v") (simp_all split: if_splits)
  then show ?thesis
    unfolding load_def by (simp add: g new nth_append)
qed

lemma extends_load_frame:
  assumes "extends s s'" and "load_frame ''df'' s = Inr d"
  shows "load_frame ''df'' s' = Inr d"
proof -
  from assms(2) have "load ''df'' s = Inr (Frame d)"
    unfolding load_frame_def
    by (cases "load ''df'' s") (simp_all split: obj.splits)
  then have "load ''df'' s' = Inr (Frame d)"
    using extends_load [OF assms(1)] by simp
  then show ?thesis
    by (simp add: load_frame_def)
qed

lemma assign_z_scores_Inr:
  assumes "assign_z_scores z s = Inr s'"
  shows "\<exists>d sel zs. load_frame ''df'' s = Inr d \<and> getitem_cols d key_columns = Inr sel \<and>
           apply_zscore z sel = Inr zs \<and>
           s' = s\<lparr>objects := objects s @ [Frame \<lparr>nrows = nrows d, cols = sel\<rparr>, ScoreFrame (nrows d) zs],
                  globals := (globals s)(''z_scores'' \<mapsto> Suc (length (objects s)))\<rparr>"
proof -
  from assms obtain d where d: "load_frame ''df'' s = Inr d"
    by (cases "load_frame ''df'' s") (simp_all add: assign_z_scores_def)
  from assms d obtain sel where sel: "getitem_cols d key_columns = Inr sel"
    by (cases "getitem_cols d key_columns") (simp_all add: assign_z_scores_def)
  from assms d sel obtain zs where zs: "apply_zscore z sel = Inr zs"
    by (cases "apply_zscore z sel") (simp_all add: assign_z_scores_def)
  from assms d sel zs have
    "s' = s\<lparr>objects := objects s @ [Frame \<lparr>nrows = nrows d, cols = sel\<rparr>, ScoreFrame (nrows d) zs],
            globals := (globals s)(''z_scores'' \<mapsto> Suc (length (objects s)))\<rparr>"
    by (simp add: assign_z_scores_def new_object_def bind_name_def last_object_def Let_def)
  with d sel zs show ?thesis
    by (intro exI conjI)
qed


lemma assign_z_scores_total:
  assumes "load_frame ''df'' s = Inr d" and "getitem_cols d key_columns = Inr sel"
    and "apply_zscore z sel = Inr zs"
  shows "assign_z_scores z s =
           Inr (s\<lparr>objects := objects s @ [Frame \<lparr>nrows = nrows d, cols = sel\<rparr>, ScoreFrame (nrows d) zs],
                  globals := (globals s)(''z_scores'' \<mapsto> Suc (length (objects s)))\<rparr>)"
  using assms
  by (simp add: assign_z_scores_def new_object_def bind_name_def last_object_def Let_def)

lemma mask_of_scores:
  "map snd (above 3 (abs_scores zs)) = map (\<lambda>(k, z). abs_gt 3 z) zs"
  by (simp add: above_def abs_scores_def abs_gt_def comp_def case_prod_unfold)

lemma assign_outliers_total:
  assumes "load ''z_scores'' s = Inr (ScoreFrame n zs)"
  shows "assign_outliers s =
           Inr (s\<lparr>objects := objects s @
                     [ScoreFrame n (abs_scores zs), BoolFrame n (above 3 (abs_scores zs)),
                      BoolSeries (any_axis1 n (map (\<lambda>(k, z). abs_gt 3 z) zs))],
                  globals := (globals s)(''outliers'' \<mapsto> Suc (Suc (length (objects s))))\<rparr>)"
  using assms
  by (simp add: assign_outliers_def new_object_def bind_name_def last_object_def Let_def
      mask_of_scores)

lemma assign_outliers_Inr:
  assumes "assign_outliers s = Inr s'"
  shows "\<exists>n zs. load ''z_scores'' s = Inr (ScoreFrame n zs) \<and>
           s' = s\<lparr>objects := objects s @
                     [ScoreFrame n (abs_scores zs), BoolFrame n (above 3 (abs_scores zs)),
                      BoolSeries (any_axis1 n (map (\<lambda>(k, z). abs_gt 3 z) zs))],
                  globals := (globals s)(''outliers'' \<mapsto> Suc (Suc (length (objects s))))\<rparr>"
proof -
  from assms obtain n zs where l: "load ''z_scores'' s = Inr (ScoreFrame n zs)"
    by (cases "load ''z_scores'' s") (simp_all add: assign_outliers_def split: obj.splits)
  from assms assign_outliers_total [OF l] have
    "s' = s\<lparr>objects := objects s @
                     [ScoreFrame n (abs_scores zs), BoolFrame n (above 3 (abs_scores zs)),
                      BoolSeries (any_axis1 n (map (\<lambda>(k, z). abs_gt 3 z) zs))],
                  globals := (globals s)(''outliers'' \<mapsto> Suc (Suc (length (objects s))))\<rparr>"
    by simp
  with l show ?thesis by (intro exI conjI)
qed

lemma print_count_total:
  assumes "load ''outliers'' s = Inr (BoolSeries m)"
  shows "print_count s = Inr (s\<lparr>printed_out := printed_out s @ [Count (length (filter (\<lambda>b. b) m))]\<rparr>)"
  using assms by (simp add: print_count_def)

lemma print_count_Inr:
  assumes "print_count s = Inr s'"
  shows "\<exists>m. load ''outliers'' s = Inr (BoolSeries m) \<and>
           s' = s\<lparr>printed_out := printed_out s @ [Count (length (filter (\<lambda>b. b) m))]\<rparr>"
proof -
  from assms obtain m where l: "load ''outliers'' s = Inr (BoolSeries m)"
    by (cases "load ''outliers'' s") (simp_all add: print_count_def split: obj.splits)
  from assms print_count_total [OF l] have
    "s' = s\<lparr>printed_out := printed_out s @ [Count (length (filter (\<lambda>b. b) m))]\<rparr>" by simp
  with l show ?thesis by (intro exI conjI)
qed

lemma print_rows_total:
  assumes "load_frame ''df'' s = Inr d" and "load ''outliers'' s = Inr (BoolSeries m)"
    and "getitem_cols (flagged_rows m d) key_columns = Inr sel"
  shows "print_rows s =
           Inr (s\<lparr>objects := objects s @ [Frame (flagged_rows m d),
                                           Frame \<lparr>nrows = nrows (flagged_rows m d), cols = sel\<rparr>],
                  printed_out := printed_out s @ [Table sel]\<rparr>)"
  using assms
  by (simp add: print_rows_def new_object_def Let_def)

lemma print_rows_Inr:
  assumes "print_rows s = Inr s'"
  shows "\<exists>d m sel. load_frame ''df'' s = Inr d \<and> load ''outliers'' s = Inr (BoolSeries m) \<and>
           getitem_cols (flagged_rows m d) key_columns = Inr sel \<and>
           s' = s\<lparr>objects := objects s @ [Frame (flagged_rows m d),
                                           Frame \<lparr>nrows = nrows (flagged_rows m d), cols = sel\<rparr>],
                  printed_out := printed_out s @ [Table sel]\<rparr>"
proof -
  from assms obtain d where d: "load_frame ''df'' s = Inr d"
    by (cases "load_frame ''df'' s") (simp_all add: print_rows_def)
  from assms d obtain m where m: "load ''outliers'' s = Inr (BoolSeries m)"
    by (cases "load ''outliers'' s") (simp_all add: print_rows_def split: obj.splits)
  from assms d m obtain sel where sel: "getitem_cols (flagged_rows m d) key_columns = Inr sel"
    by (cases "getitem_cols (flagged_rows m d) key_columns")
      (simp_all add: print_rows_def Let_def)
  from assms print_rows_total [OF d m sel] have
    "s' = s\<lparr>objects := objects s @ [Frame (flagged_rows m d),
                                           Frame \<lparr>nrows = nrows (flagged_rows m d), cols = sel\<rparr>],
                  printed_out := printed_out s @ [Table sel]\<rparr>" by simp
  with d m sel show ?thesis by (intro exI conjI)
qed


lemma load_mono:
  assumes "objects s' = objects s @ new" and "globals s' v = globals s v" and "load v s = Inr x"
  shows "load v s' = Inr x"
proof -
  from assms(3) obtain a where a: "globals s v = Some a" "a < length (objects s)" "objects s ! a = x"
    unfolding load_def by (cases "globals s v") (simp_all split: if_splits)
  then show ?thesis
    unfolding load_def by (simp add: assms(1,2) nth_append)
qed

lemma load_frame_mono:
  assumes "objects s' = objects s @ new" and "globals s' v = globals s v" and "load_frame v s = Inr d"
  shows "load_frame v s' = Inr d"
proof -
  from assms(3) have "load v s = Inr (Frame d)"
    unfolding load_frame_def by (cases "load v s") (simp_all split: obj.splits)
  from load_mono [OF assms(1,2) this] show ?thesis
    by (simp add: load_frame_def)
qed

lemma load_bound:
  assumes "globals s v = Some a" and "a < length (objects s)"
  shows "load v s = Inr (objects s ! a)"
  using assms by (simp add: load_def)

lemma flagged_rows_select:
  assumes "getitem_cols d ks = Inr sel"
  shows "\<exists>sel2. getitem_cols (flagged_rows m d) ks = Inr sel2"
proof -
  from getitem_cols_Inr [OF assms] have "\<forall>k\<in>set ks. map_of (cols d) k \<noteq> None" by simp
  then have "\<forall>k\<in>set ks. map_of (cols (flagged_rows m d)) k \<noteq> None"
    by (simp add: flagged_rows_def map_of_mask)
  from getitem_cols_total [OF this] show ?thesis by (rule exI)
qed

lemma detect_outliers_iff:
  "detect_outliers z d = Inr m \<longleftrightarrow>
     (\<exists>sel zs. getitem_cols d key_columns = Inr sel \<and> apply_zscore z sel = Inr zs \<and>
        m = any_axis1 (nrows d) (map (\<lambda>(k, zs). abs_gt 3 zs) zs))"
  by (auto simp: detect_outliers_def split: sum.splits)

lemma run_detector_total:
  assumes df: "load_frame ''df'' t = Inr d" and det: "detect_outliers z d = Inr m"
  shows "\<exists>t'. run_detector z t = Inr t' \<and> extends t t' \<and>
           load_frame ''df'' t' = Inr d \<and> load ''outliers'' t' = Inr (BoolSeries m)"
proof -
  from det obtain sel zs where
    sel: "getitem_cols d key_columns = Inr sel" and zs: "apply_zscore z sel = Inr zs" and
    m: "m = any_axis1 (nrows d) (map (\<lambda>(k, zs). abs_gt 3 zs) zs)"
    unfolding detect_outliers_iff by (elim exE conjE)
  define t1 where "t1 =
    t\<lparr>objects := objects t @ [Frame \<lparr>nrows = nrows d, cols = sel\<rparr>, ScoreFrame (nrows d) zs],
      globals := (globals t)(''z_scores'' \<mapsto> Suc (length (objects t)))\<rparr>"
  have a1: "assign_z_scores z t = Inr t1"
    unfolding t1_def by (rule assign_z_scores_total [OF df sel zs])
  have o1: "objects t1 = objects t @ [Frame \<lparr>nrows = nrows d, cols = sel\<rparr>, ScoreFrame (nrows d) zs]"
    and g1: "globals t1 = (globals t)(''z_scores'' \<mapsto> Suc (length (objects t)))"
    and p1: "printed_out t1 = printed_out t"
    by (simp_all add: t1_def)
  have l1: "load ''z_scores'' t1 = Inr (ScoreFrame (nrows d) zs)"
    by (simp add: load_def o1 g1 nth_append)
  have df1: "load_frame ''df'' t1 = Inr d"
    by (rule load_frame_mono [OF o1 _ df]) (simp add: g1)
  define t2 where "t2 =
    t1\<lparr>objects := objects t1 @
           [ScoreFrame (nrows d) (abs_scores zs), BoolFrame (nrows d) (above 3 (abs_scores zs)),
            BoolSeries (any_axis1 (nrows d) (map (\<lambda>(k, z). abs_gt 3 z) zs))],
       globals := (globals t1)(''outliers'' \<mapsto> Suc (Suc (length (objects t1))))\<rparr>"
  have a2: "assign_outliers t1 = Inr t2"
    unfolding t2_def by (rule assign_outliers_total [OF l1])
  have o2: "objects t2 = objects t1 @
           [ScoreFrame (nrows d) (abs_scores zs), BoolFrame (nrows d) (above 3 (abs_scores zs)),
            BoolSeries m]"
    and g2: "globals t2 = (globals t1)(''outliers'' \<mapsto> Suc (Suc (length (objects t1))))"
    by (simp_all add: t2_def m)
  have l2: "load ''outliers'' t2 = Inr (BoolSeries m)"
    by (simp add: load_def o2 g2 nth_append)
  have df2: "load_frame ''df'' t2 = Inr d"
    by (rule load_frame_mono [OF o2 _ df1]) (simp add: g2)
  define t3 where "t3 = t2\<lparr>printed_out := printed_out t2 @ [Count (length (filter (\<lambda>b. b) m))]\<rparr>"
  have a3: "print_count t2 = Inr t3"
    unfolding t3_def by (rule print_count_total [OF l2])
  have o3: "objects t3 = objects t2 @ []" and g3: "globals t3 = globals t2"
    by (simp_all add: t3_def)
  have l3: "load ''outliers'' t3 = Inr (BoolSeries m)"
    by (rule load_mono [OF o3 _ l2]) (simp add: g3)
  have df3: "load_frame ''df'' t3 = Inr d"
    by (rule load_frame_mono [OF o3 _ df2]) (simp add: g3)
  from flagged_rows_select [OF sel] obtain sel2 where
    sel2: "getitem_cols (flagged_rows m d) key_columns = Inr sel2" ..
  define t4 where "t4 =
    t3\<lparr>objects := objects t3 @ [Frame (flagged_rows m d),
                                 Frame \<lparr>nrows = nrows (flagged_rows m d), cols = sel2\<rparr>],
       printed_out := printed_out t3 @ [Table sel2]\<rparr>"
  have a4: "print_rows t3 = Inr t4"
    unfolding t4_def by (rule print_rows_total [OF df3 l3 sel2])
  have o4: "objects t4 = objects t3 @ [Frame (flagged_rows m d),
                                 Frame \<lparr>nrows = nrows (flagged_rows m d), cols = sel2\<rparr>]"
    and g4: "globals t4 = globals t3"
    by (simp_all add: t4_def)
  have l4: "load ''outliers'' t4 = Inr (BoolSeries m)"
    by (rule load_mono [OF o4 _ l3]) (simp add: g4)
  have df4: "load_frame ''df'' t4 = Inr d"
    by (rule load_frame_mono [OF o4 _ df3]) (simp add: g4)
  have run: "run_detector z t = Inr t4"
    by (simp add: run_detector_def a1 a2 a3 a4)
  have "\<exists>new. objects t4 = objects t @ new"
    by (simp add: o4 o3 o2 o1)
  moreover have "\<forall>v. v \<noteq> ''z_scores'' \<longrightarrow> v \<noteq> ''outliers'' \<longrightarrow> globals t4 v = globals t v"
    by (simp add: g4 g3 g2 g1)
  ultimately have ext: "extends t t4"
    unfolding extends_def by (rule conjI)
  from run ext df4 l4 show ?thesis by (intro exI conjI)
qed

lemma run_detector_Inr:
  assumes "run_detector z s = Inr s'"
  shows "\<exists>d m. load_frame ''df'' s = Inr d \<and> detect_outliers z d = Inr m \<and> extends s s' \<and>
           load_frame ''df'' s' = Inr d \<and> load ''outliers'' s' = Inr (BoolSeries m)"
proof -
  from assms obtain s1 where s1: "assign_z_scores z s = Inr s1"
    by (cases "assign_z_scores z s") (simp_all add: run_detector_def)
  from assign_z_scores_Inr [OF s1] obtain d sel zs where
    df: "load_frame ''df'' s = Inr d" and sel: "getitem_cols d key_columns = Inr sel" and
    zs: "apply_zscore z sel = Inr zs"
    by (elim exE conjE)
  from sel zs have det:
    "detect_outliers z d = Inr (any_axis1 (nrows d) (map (\<lambda>(k, zs). abs_gt 3 zs) zs))"
    by (simp add: detect_outliers_def)
  from run_detector_total [OF df det] assms df det show ?thesis
    by (elim exE conjE) (intro exI conjI, simp_all)
qed

lemma run_detector_ex_nb: "run_detector zscore_exact ex_nb = Inr ex_nb_after"
proof -
  have df: "load_frame ''df'' ex_nb = Inr ex1"
    by (simp add: load_frame_def load_def ex_nb_def)
  have sel: "getitem_cols ex1 key_columns = Inr ex1_key_cols"
    by (simp add: ex1_def key_columns_def ex1_key_cols_def)
  have zs: "apply_zscore zscore_exact ex1_key_cols = Inr ex1_scores"
    by (simp add: ex1_key_cols_def ex1_scores_def zscore_exact_def)
  have m: "any_axis1 4 (map (\<lambda>(k, z). abs_gt 3 z) ex1_scores) = [False, False, False, False]"
    by (simp add: ex1_scores_def any_axis1_def abs_gt_def upt_rec)
  have sel2: "getitem_cols (flagged_rows [False, False, False, False] ex1) key_columns =
              Inr (outlier_rows ex1_outlier_report)"
    by (simp add: flagged_rows_def ex1_def key_columns_def ex1_outlier_report_def)
  note a1 = assign_z_scores_total [OF df sel zs]
  have l1: "load ''z_scores''
              (ex_nb\<lparr>objects := objects ex_nb @ [Frame \<lparr>nrows = nrows ex1, cols = ex1_key_cols\<rparr>,
                                                  ScoreFrame (nrows ex1) ex1_scores],
                     globals := (globals ex_nb)(''z_scores'' \<mapsto> Suc (length (objects ex_nb)))\<rparr>) =
            Inr (ScoreFrame 4 ex1_scores)"
    by (simp add: load_def ex_nb_def ex1_def)
  note a2 = assign_outliers_total [OF l1]
  have n: "nrows ex1 = 4" "nrows (flagged_rows [False, False, False, False] ex1) = 0"
    by (simp_all add: ex1_def flagged_rows_def)
  show ?thesis
    by (simp add: run_detector_def a1 a2 m)
      (simp add: print_count_def print_rows_def load_def load_frame_def new_object_def Let_def
        ex_nb_def ex_nb_after_def sel2 n eval_nat_numeral)
qed

lemma impute_in_place_Inr:
  assumes "impute_in_place col s = Inr s'"
  shows "\<exists>a d d'. globals s ''df'' = Some a \<and> load_frame ''df'' s = Inr d \<and>
           impute_col d col = Inr d' \<and> objects s' = (objects s)[a := Frame d'] \<and>
           globals s' = globals s \<and> load_frame ''df'' s' = Inr d'"
proof -
  from assms obtain a where a: "globals s ''df'' = Some a"
    by (cases "globals s ''df''") (simp_all add: impute_in_place_def)
  from assms a obtain d where d: "load_frame ''df'' s = Inr d"
    by (cases "load_frame ''df'' s") (simp_all add: impute_in_place_def)
  from assms a d obtain d' where d': "impute_col d col = Inr d'"
    by (cases "impute_col d col") (simp_all add: impute_in_place_def)
  from assms a d d' have s': "s' = s\<lparr>objects := (objects s)[a := Frame d']\<rparr>"
    by (simp add: impute_in_place_def)
  from d a have "a < length (objects s)"
    by (simp add: load_frame_def load_def split: if_splits)
  with a have "load_frame ''df'' s' = Inr d'"
    by (simp add: s' load_frame_def load_def)
  with a d d' s' show ?thesis by simp
qed

lemma impute_in_place_changes_df:
  "\<exists>s'. impute_in_place ''DHI'' ex_nb = Inr s' \<and> load_frame ''df'' s' \<noteq> load_frame ''df'' ex_nb"
proof -
  have df: "load_frame ''df'' ex_nb = Inr ex1"
    by (simp add: load_frame_def load_def ex_nb_def)
  have "\<exists>d'. impute_col ex1 ''DHI'' = Inr d' \<and> d' \<noteq> ex1"
    by (simp add: impute_col_def getitem_def setitem_def col_names_def median_def fillna_def ex1_def)
  then obtain d' where d': "impute_col ex1 ''DHI'' = Inr d'" "d' \<noteq> ex1" by (elim exE conjE)
  have run: "impute_in_place ''DHI'' ex_nb = Inr (ex_nb\<lparr>objects := (objects ex_nb)[0 := Frame d']\<rparr>)"
    using df d'(1) by (simp add: impute_in_place_def) (simp add: ex_nb_def)
  from impute_in_place_Inr [OF run] obtain d0 d1 where
    "load_frame ''df'' ex_nb = Inr d0" "impute_col d0 ''DHI'' = Inr d1"
    "load_frame ''df'' (ex_nb\<lparr>objects := (objects ex_nb)[0 := Frame d']\<rparr>) = Inr d1"
    by (elim exE conjE)
  with df d' have
    "load_frame ''df'' (ex_nb\<lparr>objects := (objects ex_nb)[0 := Frame d']\<rparr>) \<noteq> load_frame ''df'' ex_nb"
    by simp
  with run show ?thesis by (intro exI conjI)
qed

section \<open>The claims\<close>

text \<open>
  The run and the detector take the scoring function as the parameter \<open>z\<close>; what is
  proved of them holds for every scoring function, the library's among them.
\<close>

subsection \<open>C1: what the missing cells of a designated column hold\<close>

text \<open>
  Claim C1, as amended. Let the run succeed and let \<open>k\<close> be a designated column with input
  cells \<open>xs\<close>. After the imputation loop every cell of \<open>k\<close> that was missing holds the
  median of the non-missing input cells of \<open>k\<close> (the column's own, computed before filling)
  and the other cells are unchanged. The clipping runs afterwards, so in the output such a
  cell holds that median clipped below at 0: the median when it is at least 0, and 0 when
  it is negative. If \<open>k\<close> has a non-missing input cell, no cell of \<open>k\<close> is missing after the
  loop or in the output; if it has none, the median is NaN and the column is left as it was.
\<close>

theorem C1_missing_cells_hold_clipped_median:
  assumes "cleaning_pipeline z d = Inr r" and "k \<in> set key_columns"
  shows "\<exists>xs zs ys d2.
           getitem d k = Inr (NumCol xs) \<and>
           imputer d = Inr d2 \<and> getitem d2 k = Inr (NumCol zs) \<and>
           getitem (cleaned r) k = Inr (NumCol ys) \<and>
           zs = fillna xs (median (nan_omit xs)) \<and> ys = clip_lower 0 zs \<and>
           (\<forall>i<length xs. zs ! i = (case xs ! i of None \<Rightarrow> median (nan_omit xs) | Some x \<Rightarrow> Some x)) \<and>
           (\<forall>i<length xs. xs ! i = None \<longrightarrow>
              ys ! i = map_option (\<lambda>m. if m < 0 then 0 else m) (median (nan_omit xs))) \<and>
           (nan_omit xs \<noteq> [] \<longrightarrow> None \<notin> set zs \<and> None \<notin> set ys) \<and>
           (nan_omit xs = [] \<longrightarrow> zs = xs \<and> ys = xs)"
proof -
  from cleaning_pipeline_Inr [OF assms(1)] obtain d2 where
    im: "imputer d = Inr d2" and no: "normalizer d2 = Inr (cleaned r)" by blast
  from imputer_Inr [OF im] assms(2) obtain xs where
    xs: "map_of (cols d) k = Some (NumCol xs)" and
    zs: "map_of (cols d2) k = Some (NumCol (fillna xs (median (nan_omit xs))))" by blast
  from normalizer_Inr [OF no] assms(2) zs have
    ys: "map_of (cols (cleaned r)) k = Some (NumCol (clip_lower 0 (fillna xs (median (nan_omit xs)))))"
    by fastforce
  let ?zs = "fillna xs (median (nan_omit xs))"
  let ?ys = "clip_lower 0 ?zs"
  have a: "\<forall>i<length xs. ?zs ! i = (case xs ! i of None \<Rightarrow> median (nan_omit xs) | Some x \<Rightarrow> Some x)"
    by (simp add: fillna_nth)
  have b: "\<forall>i<length xs. xs ! i = None \<longrightarrow>
             ?ys ! i = map_option (\<lambda>m. if m < 0 then 0 else m) (median (nan_omit xs))"
    by (simp add: clip_lower_nth fillna_nth split: option.splits)
  have c: "nan_omit xs \<noteq> [] \<longrightarrow> None \<notin> set ?zs \<and> None \<notin> set ?ys"
    by (simp add: None_in_clip_lower None_notin_fillna median_None_iff)
  have e: "nan_omit xs = [] \<longrightarrow> ?zs = xs \<and> ?ys = xs"
    by (auto simp: clip_lower_all_missing median_Nil)
  show ?thesis
    unfolding getitem_Inr_iff
    apply (rule exI [of _ xs], rule exI [of _ ?zs], rule exI [of _ ?ys], rule exI [of _ d2])
    using xs zs ys im a b c e by blast
qed

theorem C1_witness:
  "cleaning_pipeline zscore_exact ex1 = Inr ex1_result \<and> ''DHI'' \<in> set key_columns \<and>
   getitem ex1 ''DHI'' = Inr (NumCol [Some 1, None, Some 3, None]) \<and>
   median (nan_omit [Some 1, None, Some 3, None]) = Some 2 \<and>
   getitem (cleaned ex1_result) ''DHI'' = Inr (NumCol [Some 1, Some 2, Some 3, Some 2])"
proof -
  have k: "''DHI'' \<in> set key_columns" by (simp add: key_columns_def)
  have x: "getitem ex1 ''DHI'' = Inr (NumCol [Some 1, None, Some 3, None])"
    by (simp add: ex1_def getitem_def)
  have m: "median (nan_omit [Some 1, None, Some 3, None]) = Some 2"
    by (simp add: median_def)
  from C1_missing_cells_hold_clipped_median [OF run_ex1 k] obtain xs ys where
    "getitem ex1 ''DHI'' = Inr (NumCol xs)"
    "getitem (cleaned ex1_result) ''DHI'' = Inr (NumCol ys)"
    "ys = clip_lower 0 (fillna xs (median (nan_omit xs)))"
    by blast
  with x m have "getitem (cleaned ex1_result) ''DHI'' = Inr (NumCol [Some 1, Some 2, Some 3, Some 2])"
    by (simp add: fillna_def clip_lower_def)
  with run_ex1 k x m show ?thesis by simp
qed

text \<open>
  The claim as first stated fails on \<open>ex1\<close>: the median of GHI is -4, so its two missing
  cells end as 0, not as the median; and DNI, with no non-missing cell, is still entirely
  missing in the output.
\<close>

theorem C1_counterexample:
  "cleaning_pipeline zscore_exact ex1 = Inr ex1_result \<and>
   getitem ex1 ''GHI'' = Inr (NumCol [Some (-5), Some (-3), None, None]) \<and>
   median (nan_omit [Some (-5), Some (-3), None, None]) = Some (-4) \<and>
   getitem (cleaned ex1_result) ''GHI'' = Inr (NumCol [Some 0, Some 0, Some 0, Some 0]) \<and>
   getitem ex1 ''DNI'' = Inr (NumCol [None, None, None, None]) \<and>
   getitem (cleaned ex1_result) ''DNI'' = Inr (NumCol [None, None, None, None])"
  using run_ex1
  by (simp add: ex1_def ex1_result_def ex1_cleaned_def getitem_def median_def)

subsection \<open>C2: a designated column with no non-missing cell\<close>

text \<open>
  Claim C2, as amended. Let every designated column be present and numeric, and let the
  designated column \<open>k\<close> hold only missing cells. Then the imputation loop raises no error:
  the median of \<open>k\<close> is NaN, filling with it changes nothing, and the cells of \<open>k\<close> are
  still all missing after the loop and in the output of the run, which completes.
\<close>

theorem C2_all_missing_column_left_missing:
  assumes "numeric_keys d key_columns" and "k \<in> set key_columns"
    and "getitem d k = Inr (NumCol xs)" and "nan_omit xs = []"
  shows "\<exists>d2 r. imputer d = Inr d2 \<and> getitem d2 k = Inr (NumCol xs) \<and>
           cleaning_pipeline z d = Inr r \<and> getitem (cleaned r) k = Inr (NumCol xs)"
proof -
  from assms(1) obtain r where r: "cleaning_pipeline z d = Inr r"
    using cleaning_pipeline_total_iff by blast
  from cleaning_pipeline_Inr [OF r] obtain d2 where
    im: "imputer d = Inr d2" and no: "normalizer d2 = Inr (cleaned r)" by blast
  from assms(3) have xs: "map_of (cols d) k = Some (NumCol xs)"
    by (simp add: getitem_Inr_iff)
  from imputer_Inr [OF im] assms(2) xs have
    zs: "map_of (cols d2) k = Some (NumCol (fillna xs (median (nan_omit xs))))" by fastforce
  then have zs': "map_of (cols d2) k = Some (NumCol xs)"
    using assms(4) by (simp add: median_Nil)
  from normalizer_Inr [OF no] assms(2) zs' have
    "map_of (cols (cleaned r)) k = Some (NumCol (clip_lower 0 xs))" by fastforce
  then have "map_of (cols (cleaned r)) k = Some (NumCol xs)"
    using assms(4) by (simp add: clip_lower_all_missing)
  with im zs' r show ?thesis
    by (auto simp: getitem_Inr_iff)
qed

theorem C2_witness:
  "numeric_keys ex1 key_columns \<and> ''DNI'' \<in> set key_columns \<and>
   getitem ex1 ''DNI'' = Inr (NumCol [None, None, None, None]) \<and>
   nan_omit [None, None, None, None] = [] \<and>
   imputer ex1 = Inr ex1_imputed \<and>
   getitem ex1_imputed ''DNI'' = Inr (NumCol [None, None, None, None]) \<and>
   cleaning_pipeline zscore_exact ex1 = Inr ex1_result \<and>
   getitem (cleaned ex1_result) ''DNI'' = Inr (NumCol [None, None, None, None])"
proof -
  have k: "''DNI'' \<in> set key_columns" by (simp add: key_columns_def)
  have x: "getitem ex1 ''DNI'' = Inr (NumCol [None, None, None, None])"
    by (simp add: ex1_def getitem_def)
  have e: "nan_omit [None, None, None, None] = []" by simp
  from C2_all_missing_column_left_missing [OF numeric_keys_ex1 k x e, where z = zscore_exact]
  show ?thesis
    using numeric_keys_ex1 k x e by (auto simp: imputer_ex1 run_ex1)
qed

text \<open>
  The claim as first stated asks for a fatal error at the imputation. On \<open>ex1\<close>, whose DNI
  column is entirely missing, the loop returns a frame, DNI is unchanged in it, the run
  completes, and the exporter writes those cells as empty fields.
\<close>

theorem C2_counterexample:
  "getitem ex1 ''DNI'' = Inr (NumCol [None, None, None, None]) \<and>
   imputer ex1 = Inr ex1_imputed \<and>
   getitem ex1_imputed ''DNI'' = Inr (NumCol [None, None, None, None]) \<and>
   cleaning_pipeline zscore_exact ex1 = Inr ex1_result \<and>
   cell_at (NumCol [None, None, None, None]) 0 = Empty"
proof -
  have "getitem ex1 ''DNI'' = Inr (NumCol [None, None, None, None])"
    by (simp add: ex1_def getitem_def)
  moreover have "getitem ex1_imputed ''DNI'' = Inr (NumCol [None, None, None, None])"
    by (simp add: ex1_imputed_def getitem_def)
  ultimately show ?thesis
    by (simp add: imputer_ex1 run_ex1)
qed

subsection \<open>C4: clipping at zero\<close>

text \<open>
  Claim C4. Whenever the Normalizer (dropping Comments, then clipping) returns a frame,
  each designated column \<open>k\<close> of the output is the input column cell by cell: a number
  below 0 has become 0, a number that is at least 0 is unchanged, and a missing cell is
  still missing. So every number in the column is at least 0, and when the input column
  has no missing cell, which is what the imputation leaves for a column with a
  non-missing cell, every cell of the output column is a number that is at least 0.
\<close>

theorem C4_clip_at_zero:
  assumes "normalizer d = Inr d'" and "k \<in> set key_columns"
  shows "\<exists>xs ys. getitem d k = Inr (NumCol xs) \<and> getitem d' k = Inr (NumCol ys) \<and>
           length ys = length xs \<and>
           (\<forall>i<length xs. \<forall>x. xs ! i = Some x \<longrightarrow> x < 0 \<longrightarrow> ys ! i = Some 0) \<and>
           (\<forall>i<length xs. \<forall>x. xs ! i = Some x \<longrightarrow> 0 \<le> x \<longrightarrow> ys ! i = Some x) \<and>
           (\<forall>i<length xs. xs ! i = None \<longrightarrow> ys ! i = None) \<and>
           (\<forall>y. Some y \<in> set ys \<longrightarrow> 0 \<le> y) \<and>
           (None \<notin> set xs \<longrightarrow> (\<forall>v\<in>set ys. \<exists>y. v = Some y \<and> 0 \<le> y))"
proof -
  from normalizer_Inr [OF assms(1)] assms(2) obtain xs where
    xs: "map_of (cols d) k = Some (NumCol xs)" and
    ys: "map_of (cols d') k = Some (NumCol (clip_lower 0 xs))" by blast
  let ?ys = "clip_lower 0 xs"
  have a: "\<forall>i<length xs. \<forall>x. xs ! i = Some x \<longrightarrow> x < 0 \<longrightarrow> ?ys ! i = Some 0"
    by (simp add: clip_lower_nth)
  have b: "\<forall>i<length xs. \<forall>x. xs ! i = Some x \<longrightarrow> 0 \<le> x \<longrightarrow> ?ys ! i = Some x"
    by (simp add: clip_lower_nth)
  have c: "\<forall>i<length xs. xs ! i = None \<longrightarrow> ?ys ! i = None"
    by (simp add: clip_lower_nth)
  have e: "\<forall>y. Some y \<in> set ?ys \<longrightarrow> 0 \<le> y"
    using clip_lower_ge by blast
  have f: "None \<notin> set xs \<longrightarrow> (\<forall>v\<in>set ?ys. \<exists>y. v = Some y \<and> 0 \<le> y)"
  proof (intro impI ballI)
    fix v assume "None \<notin> set xs" and v: "v \<in> set ?ys"
    then have "None \<notin> set ?ys" by (simp add: None_in_clip_lower)
    with v have "v \<noteq> None" by metis
    then obtain y where "v = Some y" by auto
    with v e show "\<exists>y. v = Some y \<and> 0 \<le> y" by auto
  qed
  have l: "length ?ys = length xs" by simp
  show ?thesis
    unfolding getitem_Inr_iff
    apply (rule exI [of _ xs], rule exI [of _ ?ys])
    using xs ys l a b c e f by blast
qed

theorem C4_witness:
  "normalizer ex1_imputed = Inr ex1_cleaned \<and> ''WS'' \<in> set key_columns \<and>
   getitem ex1_imputed ''WS'' = Inr (NumCol [Some (-5/2), Some (3/2), Some (-5/2), Some (3/2)]) \<and>
   getitem ex1_cleaned ''WS'' = Inr (NumCol [Some 0, Some (3/2), Some 0, Some (3/2)]) \<and>
   cell_at (NumCol [Some 0, Some (3/2), Some 0, Some (3/2)]) 0 = Number 0"
proof -
  have k: "''WS'' \<in> set key_columns" by (simp add: key_columns_def)
  have x: "getitem ex1_imputed ''WS'' = Inr (NumCol [Some (-5/2), Some (3/2), Some (-5/2), Some (3/2)])"
    by (simp add: ex1_imputed_def getitem_def)
  have y: "getitem ex1_cleaned ''WS'' = Inr (NumCol [Some 0, Some (3/2), Some 0, Some (3/2)])"
    by (simp add: ex1_cleaned_def getitem_def)
  from C4_clip_at_zero [OF normalizer_ex1_imputed k] x y
  have "\<forall>v\<in>set [Some 0, Some (3/2), Some 0, Some (3/2)]. \<exists>y::real. v = Some y \<and> 0 \<le> y"
    by auto
  with normalizer_ex1_imputed k x y show ?thesis by simp
qed

subsection \<open>C5: rows are kept, in order\<close>

text \<open>
  Claim C5. Whenever the run succeeds, the cleaned frame has as many rows as the input, the
  outlier mask has one entry per row, and the exported file has one data line per row,
  line \<open>i\<close> holding the cells of row \<open>i\<close> of the cleaned frame. Rows keep their places:
  a column outside the designated ones and Comments is the input column itself, and in a
  designated column the number at row \<open>i\<close> of the input is, clipped at 0, the number at row
  \<open>i\<close> of the output. A frame with one cell per row and column keeps that shape. No row
  is removed, flagged or not.
\<close>

theorem C5_rows_kept_in_order:
  assumes "cleaning_pipeline z d = Inr r"
  shows "nrows (cleaned r) = nrows d \<and>
         length (outliers (outlier_rep r)) = nrows d \<and>
         length (data_lines (exported r)) = nrows d \<and>
         (\<forall>i<nrows d. data_lines (exported r) ! i = map (\<lambda>(n, c). cell_at c i) (cols (cleaned r))) \<and>
         (\<forall>n. n \<notin> set key_columns \<longrightarrow> n \<noteq> ''Comments'' \<longrightarrow> getitem (cleaned r) n = getitem d n) \<and>
         (\<forall>k\<in>set key_columns. \<exists>xs ys.
             getitem d k = Inr (NumCol xs) \<and> getitem (cleaned r) k = Inr (NumCol ys) \<and>
             length ys = length xs \<and>
             (\<forall>i<length xs. \<forall>x. xs ! i = Some x \<longrightarrow> ys ! i = Some (if x < 0 then 0 else x))) \<and>
         (wf_df d \<longrightarrow> wf_df (cleaned r))"
proof -
  note P = cleaning_pipeline_cols [OF assms]
  from cleaning_pipeline_Inr [OF assms] have
    od: "outlier_detector z d = Inr (outlier_rep r, d)" and ex: "exported r = to_csv (cleaned r)"
    by auto
  from outlier_detector_Inr [OF od] have "detect_outliers z d = Inr (outliers (outlier_rep r))"
    by simp
  from detect_outliers_Inr [OF this] have m: "length (outliers (outlier_rep r)) = nrows d"
    by (metis length_any_axis1)
  have n: "nrows (cleaned r) = nrows d" using P by simp
  have csv: "length (data_lines (exported r)) = nrows d"
    "\<forall>i<nrows d. data_lines (exported r) ! i = map (\<lambda>(n, c). cell_at c i) (cols (cleaned r))"
    by (simp_all add: ex to_csv_lines n)
  have other: "\<forall>n. n \<notin> set key_columns \<longrightarrow> n \<noteq> ''Comments'' \<longrightarrow> getitem (cleaned r) n = getitem d n"
    using P by (simp add: getitem_def)
  have key: "\<exists>xs ys.
             getitem d k = Inr (NumCol xs) \<and> getitem (cleaned r) k = Inr (NumCol ys) \<and>
             length ys = length xs \<and>
             (\<forall>i<length xs. \<forall>x. xs ! i = Some x \<longrightarrow> ys ! i = Some (if x < 0 then 0 else x))"
    if k: "k \<in> set key_columns" for k
  proof -
    from P k obtain xs where xs: "map_of (cols d) k = Some (NumCol xs)"
      "map_of (cols (cleaned r)) k = Some (NumCol (clip_lower 0 (fillna xs (median (nan_omit xs)))))"
      by blast
    let ?ys = "clip_lower 0 (fillna xs (median (nan_omit xs)))"
    have "\<forall>i<length xs. \<forall>x. xs ! i = Some x \<longrightarrow> ?ys ! i = Some (if x < 0 then 0 else x)"
      by (simp add: clip_lower_nth fillna_nth)
    moreover have "length ?ys = length xs" by simp
    ultimately show ?thesis
      unfolding getitem_Inr_iff using xs by blast
  qed
  have wf: "wf_df d \<longrightarrow> wf_df (cleaned r)"
    using cleaning_pipeline_wf [OF assms] by simp
  from n m csv other key wf show ?thesis by blast
qed

text \<open>
  The last row of \<open>ex_outlier\<close> is flagged; the output still has 17 rows, and its last
  line is that row with the missing GHI and WS cells filled.
\<close>

theorem C5_witness:
  "cleaning_pipeline zscore_exact ex_outlier = Inr ex_outlier_result \<and> nrows ex_outlier = 17 \<and>
   outliers (outlier_rep ex_outlier_result) ! 16 \<and>
   nrows (cleaned ex_outlier_result) = 17 \<and>
   length (data_lines (exported ex_outlier_result)) = 17 \<and>
   getitem ex_outlier ''ModA'' = getitem (cleaned ex_outlier_result) ''ModA'' \<and>
   data_lines (exported ex_outlier_result) ! 16 =
     [Number 1, Empty, Number 1, Number 17, Number 0, Number 0, Number 3]"
proof -
  have n: "nrows ex_outlier = 17" by (simp add: ex_outlier_def)
  have f: "outliers (outlier_rep ex_outlier_result) ! 16"
    by (simp add: ex_outlier_result_def ex_outlier_report_def ex_outlier_flags_def)
  have a: "getitem ex_outlier ''ModA'' = getitem (cleaned ex_outlier_result) ''ModA''"
    by (simp add: ex_outlier_result_def ex_outlier_def ex_outlier_cleaned_def getitem_def)
  from C5_rows_kept_in_order [OF run_ex_outlier] n have
    "nrows (cleaned ex_outlier_result) = 17"
    "length (data_lines (exported ex_outlier_result)) = 17"
    "data_lines (exported ex_outlier_result) ! 16 =
       map (\<lambda>(n, c). cell_at c 16) (cols (cleaned ex_outlier_result))"
    by simp_all
  then show ?thesis
    using run_ex_outlier n f a
    by (simp add: ex_outlier_result_def ex_outlier_cleaned_def)
qed

subsection \<open>C6: the missing-value report\<close>

text \<open>
  Claim C6, as amended. For a table with at least one row the Profiler computes, in the
  table \<open>missing_report\<close>, one line for every column of the input, in column order, with the
  column's label, its number of missing cells and that number divided by the row count,
  times 100; no column is left out of that table. The report it prints is not that table
  but its lines with a percentage above 5, in the same order: a column is in the printed
  report exactly when more than 5 percent of its cells are missing.
\<close>

theorem C6_report_table_and_printed_lines:
  assumes "0 < nrows d"
  shows "length (missing_report d) = length (cols d) \<and>
         map label (missing_report d) = col_names d \<and>
         (\<forall>i<length (cols d).
            missing_report d ! i =
              \<lparr>label = fst (cols d ! i),
               Missing_Values = n_missing (snd (cols d ! i)),
               Percentage = Some (real (n_missing (snd (cols d ! i))) / real (nrows d) * 100)\<rparr>) \<and>
         printed_missing_report d =
           map (\<lambda>(n, c). \<lparr>label = n, Missing_Values = n_missing c,
                          Percentage = Some (real (n_missing c) / real (nrows d) * 100)\<rparr>)
             (filter (\<lambda>(n, c). real (n_missing c) / real (nrows d) * 100 > 5) (cols d)) \<and>
         map label (printed_missing_report d) =
           map fst (filter (\<lambda>(n, c). real (n_missing c) / real (nrows d) * 100 > 5) (cols d))"
proof -
  have table: "length (missing_report d) = length (cols d) \<and>
         map label (missing_report d) = col_names d \<and>
         (\<forall>i<length (cols d).
            missing_report d ! i =
              \<lparr>label = fst (cols d ! i),
               Missing_Values = n_missing (snd (cols d ! i)),
               Percentage = Some (real (n_missing (snd (cols d ! i))) / real (nrows d) * 100)\<rparr>)"
    using assms
    by (simp add: missing_report_eq isna_sum_eq col_names_def case_prod_unfold comp_def)
  note shown = printed_missing_report_eq [OF assms]
  have "map label (printed_missing_report d) =
           map fst (filter (\<lambda>(n, c). real (n_missing c) / real (nrows d) * 100 > 5) (cols d))"
    by (simp add: shown comp_def case_prod_unfold)
  with table shown show ?thesis by (intro conjI) simp_all
qed

theorem C6_witness:
  "0 < nrows ex1 \<and> map label (missing_report ex1) = col_names ex1 \<and>
   missing_report ex1 ! 1 = \<lparr>label = ''GHI'', Missing_Values = 2, Percentage = Some 50\<rparr> \<and>
   missing_report ex1 ! 4 = \<lparr>label = ''ModA'', Missing_Values = 0, Percentage = Some 0\<rparr> \<and>
   printed_missing_report ex1 =
     [\<lparr>label = ''GHI'', Missing_Values = 2, Percentage = Some 50\<rparr>,
      \<lparr>label = ''DNI'', Missing_Values = 4, Percentage = Some 100\<rparr>,
      \<lparr>label = ''DHI'', Missing_Values = 2, Percentage = Some 50\<rparr>,
      \<lparr>label = ''Tamb'', Missing_Values = 1, Percentage = Some 25\<rparr>,
      \<lparr>label = ''Comments'', Missing_Values = 4, Percentage = Some 100\<rparr>]"
proof -
  have n: "0 < nrows ex1" by (simp add: ex1_def)
  have "(1::nat) < length (cols ex1)" "(4::nat) < length (cols ex1)"
    by (simp_all add: ex1_def)
  with C6_report_table_and_printed_lines [OF n] have
    "missing_report ex1 ! 1 =
       \<lparr>label = fst (cols ex1 ! 1), Missing_Values = n_missing (snd (cols ex1 ! 1)),
        Percentage = Some (real (n_missing (snd (cols ex1 ! 1))) / real (nrows ex1) * 100)\<rparr>"
    "missing_report ex1 ! 4 =
       \<lparr>label = fst (cols ex1 ! 4), Missing_Values = n_missing (snd (cols ex1 ! 4)),
        Percentage = Some (real (n_missing (snd (cols ex1 ! 4))) / real (nrows ex1) * 100)\<rparr>"
    "map label (missing_report ex1) = col_names ex1"
    "printed_missing_report ex1 =
       map (\<lambda>(n, c). \<lparr>label = n, Missing_Values = n_missing c,
                      Percentage = Some (real (n_missing c) / real (nrows ex1) * 100)\<rparr>)
         (filter (\<lambda>(n, c). real (n_missing c) / real (nrows ex1) * 100 > 5) (cols ex1))"
    by simp_all
  then show ?thesis
    using n by (simp add: ex1_def n_missing_def)
qed

text \<open>
  The claim as first stated has no column left out of the report. Of the ten columns of
  \<open>ex1\<close> the printed report shows five; Timestamp and ModA, with no missing cell, are
  not in it.
\<close>

theorem C6_counterexample:
  "0 < nrows ex1 \<and>
   col_names ex1 = [''Timestamp'', ''GHI'', ''DNI'', ''DHI'', ''ModA'', ''ModB'', ''WS'',
                    ''WSgust'', ''Tamb'', ''Comments''] \<and>
   map label (printed_missing_report ex1) = [''GHI'', ''DNI'', ''DHI'', ''Tamb'', ''Comments''] \<and>
   ''Timestamp'' \<notin> set (map label (printed_missing_report ex1)) \<and>
   ''ModA'' \<notin> set (map label (printed_missing_report ex1))"
  by (simp add: ex1_def col_names_def printed_missing_report_def missing_report_def
      missing_values_def missing_percentage_def isna_sum_def)

subsection \<open>C7: the Comments column\<close>

text \<open>
  Claim C7. Dropping Comments never fails: the result has no column Comments, keeps every
  other column in place, and is the frame itself when there was no such column. Whether
  the Normalizer as a whole returns a frame depends only on the designated columns being
  present and numeric, not on Comments; and every frame it returns has the column labels
  of its input without Comments.
\<close>

theorem C7_Comments_dropped:
  "''Comments'' \<notin> set (col_names (drop_columns d [''Comments''])) \<and>
   cols (drop_columns d [''Comments'']) = filter (\<lambda>(n, c). n \<noteq> ''Comments'') (cols d) \<and>
   (''Comments'' \<notin> set (col_names d) \<longrightarrow> drop_columns d [''Comments''] = d) \<and>
   ((\<exists>d'. normalizer d = Inr d') \<longleftrightarrow> numeric_keys d key_columns) \<and>
   (\<forall>d'. normalizer d = Inr d' \<longrightarrow>
      ''Comments'' \<notin> set (col_names d') \<and>
      col_names d' = filter (\<lambda>n. n \<noteq> ''Comments'') (col_names d) \<and>
      getitem d' ''Comments'' = Inl (KeyError ''Comments''))"
proof -
  have a: "''Comments'' \<notin> set (col_names (drop_columns d [''Comments'']))"
    by (simp add: col_names_drop_columns)
  have b: "cols (drop_columns d [''Comments'']) = filter (\<lambda>(n, c). n \<noteq> ''Comments'') (cols d)"
    by (simp add: drop_columns_def)
  have c: "''Comments'' \<notin> set (col_names d) \<longrightarrow> drop_columns d [''Comments''] = d"
    by (simp add: drop_columns_absent)
  have e: "''Comments'' \<notin> set (col_names d') \<and>
      col_names d' = filter (\<lambda>n. n \<noteq> ''Comments'') (col_names d) \<and>
      getitem d' ''Comments'' = Inl (KeyError ''Comments'')" if "normalizer d = Inr d'" for d'
    using normalizer_Inr [OF that] by (simp add: getitem_def)
  from a b c e normalizer_total_iff [of d] show ?thesis by blast
qed

text \<open>
  \<open>ex1_imputed\<close> has a Comments column and \<open>ex1_cleaned\<close> has none; the Normalizer
  returns \<open>ex1_cleaned\<close> on both.
\<close>

theorem C7_witness:
  "''Comments'' \<in> set (col_names ex1_imputed) \<and> normalizer ex1_imputed = Inr ex1_cleaned \<and>
   ''Comments'' \<notin> set (col_names ex1_cleaned) \<and> normalizer ex1_cleaned = Inr ex1_cleaned \<and>
   drop_columns ex1_cleaned [''Comments''] = ex1_cleaned \<and>
   getitem ex1_cleaned ''Comments'' = Inl (KeyError ''Comments'')"
proof -
  have p: "''Comments'' \<in> set (col_names ex1_imputed)"
    by (simp add: ex1_imputed_def col_names_def)
  from C7_Comments_dropped [of ex1_imputed] normalizer_ex1_imputed have
    a: "''Comments'' \<notin> set (col_names ex1_cleaned)"
       "getitem ex1_cleaned ''Comments'' = Inl (KeyError ''Comments'')"
    by blast+
  from C7_Comments_dropped [of ex1_cleaned] a(1) have
    "drop_columns ex1_cleaned [''Comments''] = ex1_cleaned" by blast
  with p a normalizer_ex1_imputed normalizer_ex1_cleaned show ?thesis by simp
qed

subsection \<open>C8: the Normalizer is idempotent\<close>

text \<open>
  Claim C8. On a well-formed frame without a Comments column whose designated columns
  hold neither a missing nor a negative cell, the Normalizer returns the frame unchanged.
  (\<open>normalizer_twice\<close> is the same for any frame the Normalizer has returned.)
\<close>

theorem C8_normalizer_idempotent:
  assumes "wf_df d" and "''Comments'' \<notin> set (col_names d)" and "clean_keys d"
  shows "normalizer d = Inr d"
proof (rule normalizer_fixpoint)
  show "distinct (col_names d)" using assms(1) by (simp add: wf_df_def)
  show "''Comments'' \<notin> set (col_names d)" by fact
  show "\<forall>k\<in>set key_columns. \<exists>xs. map_of (cols d) k = Some (NumCol xs) \<and> (\<forall>x. Some x \<in> set xs \<longrightarrow> 0 \<le> x)"
    using assms(3) unfolding clean_keys_iff getitem_Inr_iff by blast
qed

theorem C8_witness:
  "wf_df ex_clean \<and> ''Comments'' \<notin> set (col_names ex_clean) \<and> clean_keys ex_clean \<and>
   normalizer ex_clean = Inr ex_clean"
proof -
  have c: "''Comments'' \<notin> set (col_names ex_clean)"
    by (simp add: ex_clean_def col_names_def)
  have k: "clean_keys ex_clean"
    by (simp add: clean_keys_def ex_clean_def key_columns_def getitem_def)
  from C8_normalizer_idempotent [OF wf_ex_clean c k] wf_ex_clean c k
  show ?thesis by simp
qed

subsection \<open>C9: the Outlier Detector only reads\<close>

text \<open>
  Claim C9. Whenever the detector's four statements run through on a notebook state, the
  name \<open>df\<close> is bound as before, every object that existed before, the frame of \<open>df\<close>
  among them, is unchanged, and \<open>outliers\<close> is bound to the mask of that frame. Run a
  second time on the state they leave, the statements run through again, bind \<open>outliers\<close>
  to the same mask and leave \<open>df\<close> the same frame. (A statement of the imputation loop
  does change the frame of \<open>df\<close>: \<open>impute_in_place_changes_df\<close>.)
\<close>

theorem C9_detector_leaves_df:
  assumes "run_detector z s = Inr s'"
  shows "globals s' ''df'' = globals s ''df'' \<and>
         (\<forall>a<length (objects s). objects s' ! a = objects s ! a) \<and>
         load_frame ''df'' s' = load_frame ''df'' s \<and>
         (\<exists>d m. load_frame ''df'' s = Inr d \<and> detect_outliers z d = Inr m \<and>
                 load ''outliers'' s' = Inr (BoolSeries m)) \<and>
         (\<exists>s''. run_detector z s' = Inr s'' \<and>
                 load ''outliers'' s'' = load ''outliers'' s' \<and>
                 load_frame ''df'' s'' = load_frame ''df'' s)"
proof -
  from run_detector_Inr [OF assms] obtain d m where
    df: "load_frame ''df'' s = Inr d" and det: "detect_outliers z d = Inr m" and
    ext: "extends s s'" and df': "load_frame ''df'' s' = Inr d" and
    out: "load ''outliers'' s' = Inr (BoolSeries m)"
    by (elim exE conjE)
  from ext obtain new where new: "objects s' = objects s @ new"
    unfolding extends_def by (elim conjE exE)
  from ext have "\<forall>v. v \<noteq> ''z_scores'' \<longrightarrow> v \<noteq> ''outliers'' \<longrightarrow> globals s' v = globals s v"
    unfolding extends_def by (elim conjE)
  then have g: "globals s' ''df'' = globals s ''df''" by simp
  have old: "\<forall>a<length (objects s). objects s' ! a = objects s ! a"
    by (simp add: new nth_append)
  from run_detector_total [OF df' det] obtain s'' where
    again: "run_detector z s' = Inr s''" "load_frame ''df'' s'' = Inr d"
      "load ''outliers'' s'' = Inr (BoolSeries m)"
    by (elim exE conjE)
  have first: "\<exists>d m. load_frame ''df'' s = Inr d \<and> detect_outliers z d = Inr m \<and>
                 load ''outliers'' s' = Inr (BoolSeries m)"
    using df det out by (intro exI conjI)
  have second: "\<exists>s''. run_detector z s' = Inr s'' \<and>
                 load ''outliers'' s'' = load ''outliers'' s' \<and>
                 load_frame ''df'' s'' = load_frame ''df'' s"
    using again out df by (intro exI [of _ s''] conjI) simp_all
  show ?thesis
    using g old df df' first second by (intro conjI) simp_all
qed

theorem C9_witness:
  "run_detector zscore_exact ex_nb = Inr ex_nb_after \<and>
   load_frame ''df'' ex_nb = Inr ex1 \<and> load_frame ''df'' ex_nb_after = Inr ex1 \<and>
   objects ex_nb_after ! 0 = Frame ex1 \<and>
   load ''outliers'' ex_nb_after = Inr (BoolSeries [False, False, False, False])"
proof -
  have df: "load_frame ''df'' ex_nb = Inr ex1"
    by (simp add: load_frame_def load_def ex_nb_def)
  have o: "objects ex_nb ! 0 = Frame ex1" "0 < length (objects ex_nb)"
    by (simp_all add: ex_nb_def)
  have out: "load ''outliers'' ex_nb_after = Inr (BoolSeries [False, False, False, False])"
    by (simp add: load_def ex_nb_after_def)
  from C9_detector_leaves_df [OF run_detector_ex_nb] df o have
    "load_frame ''df'' ex_nb_after = Inr ex1" "objects ex_nb_after ! 0 = Frame ex1"
    by simp_all
  with run_detector_ex_nb df out show ?thesis by simp
qed

subsection \<open>C10: the other columns pass through\<close>

text \<open>
  Claim C10. Whenever the run succeeds, a column that is neither designated nor Comments
  is the same in the cleaned frame as in the input, missing and negative cells included;
  it is a column of the output exactly when it is one of the input, the imputation loop
  alone leaves it unchanged as well, and for a well-formed input the exported file has a
  field column with its label whose fields are the cells of the input column.
\<close>

theorem C10_other_columns_untouched:
  assumes "cleaning_pipeline z d = Inr r" and "n \<notin> set key_columns" and "n \<noteq> ''Comments''"
  shows "getitem (cleaned r) n = getitem d n \<and>
         (n \<in> set (col_names (cleaned r)) \<longleftrightarrow> n \<in> set (col_names d)) \<and>
         (\<forall>d2. imputer d = Inr d2 \<longrightarrow> getitem d2 n = getitem d n) \<and>
         (wf_df d \<longrightarrow> (\<forall>c. getitem d n = Inr c \<longrightarrow>
            (\<exists>j<length (header_line (exported r)).
               header_line (exported r) ! j = n \<and>
               (\<forall>i<nrows d. data_lines (exported r) ! i ! j = cell_at c i))))"
proof -
  note P = cleaning_pipeline_cols [OF assms(1)]
  from cleaning_pipeline_Inr [OF assms(1)] have ex: "exported r = to_csv (cleaned r)" by auto
  have a: "getitem (cleaned r) n = getitem d n"
    using P assms(2,3) by (simp add: getitem_def)
  have b: "n \<in> set (col_names (cleaned r)) \<longleftrightarrow> n \<in> set (col_names d)"
    using P assms(3) by simp
  have c: "\<forall>d2. imputer d = Inr d2 \<longrightarrow> getitem d2 n = getitem d n"
    using imputer_Inr assms(2) by (simp add: getitem_def)
  have e: "\<exists>j<length (header_line (exported r)).
               header_line (exported r) ! j = n \<and>
               (\<forall>i<nrows d. data_lines (exported r) ! i ! j = cell_at c i)"
    if wf: "wf_df d" and col: "getitem d n = Inr c" for c
  proof -
    from cleaning_pipeline_wf [OF assms(1) wf] have dist: "distinct (map fst (cols (cleaned r)))"
      by (simp add: wf_df_def col_names_def)
    from col a have "getitem (cleaned r) n = Inr c" by simp
    then have look: "map_of (cols (cleaned r)) n = Some c"
      by (simp add: getitem_Inr_iff)
    then have "n \<in> set (col_names (cleaned r))" by (simp add: in_names_iff)
    then obtain j where j: "j < length (cols (cleaned r))" "col_names (cleaned r) ! j = n"
      by (auto simp: in_set_conv_nth col_names_def)
    then have fst_j: "fst (cols (cleaned r) ! j) = n" by (simp add: col_names_def)
    with nth_distinct_lookup [OF dist j(1)] look have snd_j: "snd (cols (cleaned r) ! j) = c"
      by simp
    have "data_lines (exported r) ! i ! j = cell_at c i" if "i < nrows d" for i
      using that j(1) P snd_j by (simp add: ex to_csv_lines case_prod_unfold)
    with j show ?thesis
      by (auto simp: ex to_csv_lines col_names_def)
  qed
  from a b c e show ?thesis by blast
qed

text \<open>Tamb in \<open>ex1\<close> has a negative and a missing cell; both are still there in the output.\<close>

theorem C10_witness:
  "cleaning_pipeline zscore_exact ex1 = Inr ex1_result \<and> ''Tamb'' \<notin> set key_columns \<and>
   getitem ex1 ''Tamb'' = Inr (NumCol [Some (-1), None, Some 20, Some 21]) \<and>
   getitem (cleaned ex1_result) ''Tamb'' = Inr (NumCol [Some (-1), None, Some 20, Some 21])"
proof -
  have k: "''Tamb'' \<notin> set key_columns" by (simp add: key_columns_def)
  have x: "getitem ex1 ''Tamb'' = Inr (NumCol [Some (-1), None, Some 20, Some 21])"
    by (simp add: ex1_def getitem_def)
  from C10_other_columns_untouched [OF run_ex1 k] x run_ex1 k show ?thesis by simp
qed

end
